theory Spec2Isabelle
  imports Main "HOL-Library.AList" "HOL-Library.Sublist"
begin

section \<open>JavaScript values as the lens validator sees them\<close>

text \<open>
  \<^verbatim>\<open>src/utils/lensValidator.js\<close> works on whatever \<^verbatim>\<open>JSON.parse\<close> returns, and
  mutates it. A value is a tree: no two places of a freshly parsed document share an
  object, so in-place mutation is modelled by rebuilding the tree.

  \<^item> An object is the list of its own properties in insertion order. A property is
    read with \<open>map_of\<close> and written with \<open>AList.update\<close> (overwrite in place, or
    append), as JavaScript does.
  \<^item> An array carries its elements and, separately, the extra named properties that
    an assignment such as \<^verbatim>\<open>arr.data = v\<close> creates on it.
  \<^item> A number is an integer: the code never computes with numbers, it only tests
    their truthiness and compares a length with zero.
  \<^item> A string is a list of bytes (the UTF-8 text of the file).
\<close>

datatype jsval =
    JUndefined
  | JNull
  | JBool bool
  | JNum int
  | JStr string
  | JArr "jsval list" "(string \<times> jsval) list"
  | JObj "(string \<times> jsval) list"

datatype jstype = TUndefined | TObject | TBoolean | TNumber | TString

datatype js_error = TypeError | SyntaxError | IOError

text \<open>The operator \<^verbatim>\<open>typeof\<close>.\<close>

fun typeof :: "jsval \<Rightarrow> jstype" where
  "typeof JUndefined = TUndefined"
| "typeof JNull = TObject"
| "typeof (JBool b) = TBoolean"
| "typeof (JNum n) = TNumber"
| "typeof (JStr s) = TString"
| "typeof (JArr xs ps) = TObject"
| "typeof (JObj kvs) = TObject"

text \<open>Conversion to boolean, as done by \<^verbatim>\<open>!v\<close>, \<^verbatim>\<open>v && w\<close>, \<^verbatim>\<open>v || w\<close> and \<^verbatim>\<open>if (v)\<close>.\<close>

fun truthy :: "jsval \<Rightarrow> bool" where
  "truthy JUndefined = False"
| "truthy JNull = False"
| "truthy (JBool b) = b"
| "truthy (JNum n) = (n \<noteq> 0)"
| "truthy (JStr s) = (s \<noteq> [])"
| "truthy (JArr xs ps) = True"
| "truthy (JObj kvs) = True"

text \<open>\<^verbatim>\<open>Array.isArray(v)\<close>.\<close>

fun isArray :: "jsval \<Rightarrow> bool" where
  "isArray (JArr xs ps) = True"
| "isArray v = False"

text \<open>
  The read \<^verbatim>\<open>v.k\<close> for the property names the validator uses on documents and
  content items (\<^verbatim>\<open>resourceType\<close>, \<^verbatim>\<open>id\<close>, \<^verbatim>\<open>url\<close>, \<^verbatim>\<open>name\<close>, \<^verbatim>\<open>status\<close>,
  \<^verbatim>\<open>version\<close>, \<^verbatim>\<open>content\<close>, \<^verbatim>\<open>data\<close>): none of them is an index, \<^verbatim>\<open>length\<close> or a
  member of a built-in prototype. Reading a property of \<^verbatim>\<open>null\<close> or \<^verbatim>\<open>undefined\<close>
  throws a TypeError; a primitive has none of these properties.
\<close>

fun getField :: "jsval \<Rightarrow> string \<Rightarrow> js_error + jsval" where
  "getField JUndefined k = Inl TypeError"
| "getField JNull k = Inl TypeError"
| "getField (JObj kvs) k = Inr (case map_of kvs k of None \<Rightarrow> JUndefined | Some v \<Rightarrow> v)"
| "getField (JArr xs ps) k = Inr (case map_of ps k of None \<Rightarrow> JUndefined | Some v \<Rightarrow> v)"
| "getField v k = Inr JUndefined"

text \<open>Sequencing of steps that may throw: the first exception ends the computation.\<close>

definition thenE :: "js_error + 'a \<Rightarrow> ('a \<Rightarrow> js_error + 'b) \<Rightarrow> js_error + 'b" where
  "thenE m f = (case m of Inl e \<Rightarrow> Inl e | Inr x \<Rightarrow> f x)"

section \<open>validateFHIRLens\<close>

record validation =
  isValid :: bool
  errors :: "string list"

text \<open>
  The loop over \<^verbatim>\<open>lens.content\<close>:
  \<^verbatim>\<open>
    let hasBase64Content = false;
    for (const item of lens.content) {
      if (item.data && typeof item.data === 'string') { hasBase64Content = true; break; }
    }
  \<close>
  The read \<^verbatim>\<open>item.data\<close> is not guarded, so an item that is \<^verbatim>\<open>null\<close> throws.
\<close>

fun hasBase64Content :: "jsval list \<Rightarrow> js_error + bool" where
  "hasBase64Content [] = Inr False"
| "hasBase64Content (item # rest) =
     thenE (getField item ''data'') (\<lambda>d.
       if truthy d \<and> typeof d = TString then Inr True else hasBase64Content rest)"

text \<open>The elements of an array; no elements for any other value.\<close>

fun elems :: "jsval \<Rightarrow> jsval list" where
  "elems (JArr xs ps) = xs"
| "elems v = []"

definition checkResourceType :: "jsval \<Rightarrow> string list" where
  "checkResourceType v =
     (if v \<noteq> JStr ''Library'' then [''resourceType must be \"Library\"''] else [])"

definition checkString :: "jsval \<Rightarrow> string \<Rightarrow> string list" where
  "checkString v msg = (if \<not> truthy v \<or> typeof v \<noteq> TString then [msg] else [])"

definition checkContent :: "jsval \<Rightarrow> js_error + string list" where
  "checkContent c =
     (if \<not> isArray c then Inr [''content must be an array'']
      else thenE (hasBase64Content (elems c)) (\<lambda>has.
        if \<not> has
        then Inr [''content must include at least one item with base64 encoded data'']
        else Inr []))"

text \<open>
  \<^verbatim>\<open>validateFHIRLens(lens)\<close>: the messages are pushed in the order of the checks, and
  \<^verbatim>\<open>isValid\<close> is \<^verbatim>\<open>errors.length === 0\<close>. There is no check of \<^verbatim>\<open>lens.id\<close>.
\<close>

definition validateFHIRLens :: "jsval \<Rightarrow> js_error + validation" where
  "validateFHIRLens lens =
     (if \<not> truthy lens \<or> typeof lens \<noteq> TObject
      then Inr \<lparr>isValid = False, errors = [''Lens must be a JSON object'']\<rparr>
      else
        thenE (getField lens ''resourceType'') (\<lambda>resourceType.
        thenE (getField lens ''url'') (\<lambda>url.
        thenE (getField lens ''name'') (\<lambda>name.
        thenE (getField lens ''status'') (\<lambda>status.
        thenE (getField lens ''content'') (\<lambda>content.
        thenE (checkContent content) (\<lambda>contentErrors.
          let errs = checkResourceType resourceType
                   @ checkString url ''url is required and must be a string''
                   @ checkString name ''name is required and must be a string''
                   @ checkString status ''status is required and must be a string''
                   @ contentErrors
          in Inr \<lparr>isValid = (length errs = 0), errors = errs\<rparr>)))))))"

section \<open>isLensMissingBase64Content\<close>

text \<open>\<^verbatim>\<open>s.length\<close> of a string value (read only after \<^verbatim>\<open>typeof\<close> said string).\<close>

fun strLength :: "jsval \<Rightarrow> nat" where
  "strLength (JStr s) = length s"
| "strLength v = 0"

text \<open>
  \<^verbatim>\<open>xs.some(f)\<close>: the callback runs on the elements in order until one answers true.
\<close>

fun js_some :: "(jsval \<Rightarrow> js_error + bool) \<Rightarrow> jsval list \<Rightarrow> js_error + bool" where
  "js_some f [] = Inr False"
| "js_some f (x # xs) = thenE (f x) (\<lambda>b. if b then Inr True else js_some f xs)"

text \<open>
  The callback \<^verbatim>\<open>c => c && typeof c.data === 'string' && c.data.length > 0\<close>; the
  conjunction stops at a falsy \<^verbatim>\<open>c\<close>, before \<^verbatim>\<open>c.data\<close> is read.
\<close>

definition hasData :: "jsval \<Rightarrow> js_error + bool" where
  "hasData c =
     (if \<not> truthy c then Inr False
      else thenE (getField c ''data'') (\<lambda>d.
        if typeof d = TString then Inr (strLength d > 0) else Inr False))"

definition isLensMissingBase64Content :: "jsval \<Rightarrow> js_error + bool" where
  "isLensMissingBase64Content jsonData =
     thenE (getField jsonData ''content'') (\<lambda>content.
       if \<not> truthy content \<or> \<not> isArray content \<or> length (elems content) = 0
       then Inr True
       else if length (elems content) = 1
       then (let item = elems content ! 0 in
               if \<not> truthy item then Inr True
               else thenE (getField item ''data'') (\<lambda>d.
                 if typeof d \<noteq> TString \<or> strLength d = 0 then Inr True else Inr False))
       else thenE (js_some hasData (elems content)) (\<lambda>hasAnyData. Inr (\<not> hasAnyData)))"

subsection \<open>The predicate "missing payload" in the words of the specification\<close>

text \<open>
  The \<^verbatim>\<open>data\<close> field of a content item and the \<^verbatim>\<open>content\<close> field of a document,
  \<open>JUndefined\<close> when there is none.
\<close>

definition dataField :: "jsval \<Rightarrow> jsval" where
  "dataField item = (case getField item ''data'' of Inl e \<Rightarrow> JUndefined | Inr d \<Rightarrow> d)"

definition contentField :: "jsval \<Rightarrow> jsval" where
  "contentField doc = (case getField doc ''content'' of Inl e \<Rightarrow> JUndefined | Inr c \<Rightarrow> c)"

definition nonEmptyStringData :: "jsval \<Rightarrow> bool" where
  "nonEmptyStringData item = (\<exists>s. dataField item = JStr s \<and> s \<noteq> [])"

text \<open>
  A document is missing its payload when \<^verbatim>\<open>content\<close> is absent, not a sequence or
  empty; or has exactly one item whose \<^verbatim>\<open>data\<close> is absent, empty or not a string; or
  has several items none of which has a non-empty string \<^verbatim>\<open>data\<close>.
\<close>

definition missingPayload :: "jsval \<Rightarrow> bool" where
  "missingPayload doc =
     (let c = contentField doc in
        (c = JUndefined \<or> \<not> isArray c \<or> elems c = [])
      \<or> (length (elems c) = 1 \<and>
           (dataField (elems c ! 0) = JUndefined
            \<or> dataField (elems c ! 0) = JStr []
            \<or> typeof (dataField (elems c ! 0)) \<noteq> TString))
      \<or> (length (elems c) > 1 \<and> (\<forall>item \<in> set (elems c). \<not> nonEmptyStringData item)))"

section \<open>Strings, paths and the file system\<close>

text \<open>\<^verbatim>\<open>haystack.includes(needle)\<close>: the needle occurs as a contiguous substring.\<close>

fun str_includes :: "string \<Rightarrow> string \<Rightarrow> bool" where
  "str_includes [] needle = (needle = [])"
| "str_includes (c # cs) needle = (prefix needle (c # cs) \<or> str_includes cs needle)"

text \<open>
  A path is the list of its segments below the file-system root, so that
  \<^verbatim>\<open>path.join(dir, file)\<close> appends a segment and \<^verbatim>\<open>path.dirname\<close> removes the last
  one. (The directory handed to \<^verbatim>\<open>discoverLenses\<close> is taken in normal form.)
\<close>

type_synonym fpath = "string list"

definition path_join :: "fpath \<Rightarrow> string \<Rightarrow> fpath" where
  "path_join dir file = dir @ [file]"

definition path_dirname :: "fpath \<Rightarrow> fpath" where
  "path_dirname p = butlast p"

text \<open>
  \<^verbatim>\<open>path.extname(file)\<close> of a bare file name: from the last dot to the end; empty when
  there is no dot, when the only dot is the first character, and for \<^verbatim>\<open>..\<close>.
\<close>

definition extname :: "string \<Rightarrow> string" where
  "extname file =
     (let r = rev file;
          after = takeWhile (\<lambda>c. c \<noteq> CHR ''.'') r;
          upto = dropWhile (\<lambda>c. c \<noteq> CHR ''.'') r
      in if upto = [] \<or> tl upto = [] \<or> file = ''..'' then [] else CHR ''.'' # rev after)"

text \<open>\<^verbatim>\<open>path.basename(file, ext)\<close> of a bare file name.\<close>

definition path_basename :: "string \<Rightarrow> string \<Rightarrow> string" where
  "path_basename file ext =
     (if suffix ext file \<and> file \<noteq> ext then take (length file - length ext) file else file)"

text \<open>
  What the walk can meet under a name: a file with its text, a file that cannot be
  read, a directory with its entries in \<^verbatim>\<open>readdirSync\<close> order, a directory that cannot
  be listed, and a name whose \<^verbatim>\<open>statSync\<close> fails (a dangling link).
\<close>

datatype fsnode =
    File string
  | Unreadable
  | Dir "(string \<times> fsnode) list"
  | Unlistable
  | Dangling

fun fs_lookup :: "fsnode \<Rightarrow> fpath \<Rightarrow> fsnode option" where
  "fs_lookup n [] = Some n"
| "fs_lookup (Dir files) (s # p) =
     (case map_of files s of None \<Rightarrow> None | Some c \<Rightarrow> fs_lookup c p)"
| "fs_lookup n (s # p) = None"

text \<open>\<^verbatim>\<open>fs.readFileSync(filePath, 'utf8')\<close>.\<close>

definition readFileSync :: "fsnode \<Rightarrow> fpath \<Rightarrow> js_error + string" where
  "readFileSync fs filePath =
     (case fs_lookup fs filePath of Some (File content) \<Rightarrow> Inr content | _ \<Rightarrow> Inl IOError)"

text \<open>\<^verbatim>\<open>stat.isDirectory()\<close>.\<close>

fun isDirectory :: "fsnode \<Rightarrow> bool" where
  "isDirectory (Dir files) = True"
| "isDirectory Unlistable = True"
| "isDirectory n = False"

section \<open>findJsonFiles\<close>

text \<open>
  \<^verbatim>\<open>traverse(currentDir)\<close> lists the directory (which throws unless it is a listable
  directory) and loops over the entries; \<^verbatim>\<open>jsonFiles\<close> is the array the closure
  pushes to. Nothing is caught here.
\<close>

fun traverseJson :: "fpath \<Rightarrow> fsnode \<Rightarrow> fpath list \<Rightarrow> js_error + fpath list"
  and traverseJsonEntries ::
    "fpath \<Rightarrow> (string \<times> fsnode) list \<Rightarrow> fpath list \<Rightarrow> js_error + fpath list" where
  "traverseJson currentDir (Dir files) jsonFiles =
     traverseJsonEntries currentDir files jsonFiles"
| "traverseJson currentDir (File content) jsonFiles = Inl IOError"
| "traverseJson currentDir Unreadable jsonFiles = Inl IOError"
| "traverseJson currentDir Unlistable jsonFiles = Inl IOError"
| "traverseJson currentDir Dangling jsonFiles = Inl IOError"
| "traverseJsonEntries currentDir [] jsonFiles = Inr jsonFiles"
| "traverseJsonEntries currentDir ((file, n) # rest) jsonFiles =
     (if n = Dangling then Inl IOError
      else if isDirectory n then
        thenE (traverseJson (path_join currentDir file) n jsonFiles)
          (\<lambda>jsonFiles'. traverseJsonEntries currentDir rest jsonFiles')
      else if extname file = ''.json'' then
        traverseJsonEntries currentDir rest (jsonFiles @ [path_join currentDir file])
      else traverseJsonEntries currentDir rest jsonFiles)"

definition findJsonFiles :: "fsnode \<Rightarrow> fpath \<Rightarrow> js_error + fpath list" where
  "findJsonFiles fs dir =
     (case fs_lookup fs dir of
        None \<Rightarrow> Inl IOError
      | Some n \<Rightarrow> traverseJson dir n [])"

section \<open>findEnhanceFiles\<close>

text \<open>
  The result \<^verbatim>\<open>{ exact: {}, fallback: {} }\<close>: two plain objects used as tables keyed
  by path. (A key that is the name of a built-in member, such as \<^verbatim>\<open>constructor\<close>,
  cannot arise from an absolute root directory and is left out of the model.)
\<close>

record enhanceFiles =
  exact :: "fpath \<rightharpoonup> fpath"
  fallback :: "fpath \<rightharpoonup> fpath list"

text \<open>
  The test on the text of a \<^verbatim>\<open>.js\<close> file:
  \<^verbatim>\<open>
    content.includes('function\s+enhance') || content.includes('const\s+enhance')
      || content.includes('export.*enhance') || content.includes('let\s+enhance\s+=.*()')
  \<close>
  The arguments are string literals, not regular expressions, and in a string literal
  the escape \<^verbatim>\<open>\s\<close> is the letter \<^verbatim>\<open>s\<close>: the four needles are the literal texts
  below.
\<close>

definition hasEnhanceDeclaration :: "string \<Rightarrow> bool" where
  "hasEnhanceDeclaration content =
     (str_includes content ''functions+enhance''
      \<or> str_includes content ''consts+enhance''
      \<or> str_includes content ''export.*enhance''
      \<or> str_includes content ''lets+enhances+=.*()'')"

text \<open>
  The loop carries \<^verbatim>\<open>jsFilesInDir\<close> (local to one call of \<^verbatim>\<open>traverse\<close>) and the
  shared \<^verbatim>\<open>enhanceFiles\<close>. A \<^verbatim>\<open>.js\<close> file that cannot be read is skipped by the
  \<^verbatim>\<open>catch\<close>.
\<close>

fun traverseEnhance :: "fpath \<Rightarrow> fsnode \<Rightarrow> enhanceFiles \<Rightarrow> js_error + enhanceFiles"
  and traverseEnhanceEntries ::
    "fpath \<Rightarrow> (string \<times> fsnode) list \<Rightarrow> fpath list \<Rightarrow> enhanceFiles
       \<Rightarrow> js_error + (fpath list \<times> enhanceFiles)" where
  "traverseEnhance currentDir (Dir files) ef =
     thenE (traverseEnhanceEntries currentDir files [] ef) (\<lambda>(jsFilesInDir, ef').
       if length jsFilesInDir > 0
       then Inr (ef'\<lparr>fallback := (fallback ef')(currentDir \<mapsto> jsFilesInDir)\<rparr>)
       else Inr ef')"
| "traverseEnhance currentDir (File content) ef = Inl IOError"
| "traverseEnhance currentDir Unreadable ef = Inl IOError"
| "traverseEnhance currentDir Unlistable ef = Inl IOError"
| "traverseEnhance currentDir Dangling ef = Inl IOError"
| "traverseEnhanceEntries currentDir [] jsFilesInDir ef = Inr (jsFilesInDir, ef)"
| "traverseEnhanceEntries currentDir ((file, n) # rest) jsFilesInDir ef =
     (if n = Dangling then Inl IOError
      else if isDirectory n then
        thenE (traverseEnhance (path_join currentDir file) n ef)
          (\<lambda>ef'. traverseEnhanceEntries currentDir rest jsFilesInDir ef')
      else if extname file = ''.js'' then
        (case n of
           File content \<Rightarrow>
             if hasEnhanceDeclaration content
             then traverseEnhanceEntries currentDir rest
                    (jsFilesInDir @ [path_join currentDir file])
                    (ef\<lparr>exact := (exact ef)
                       (path_join currentDir (path_basename file ''.js'' @ ''.json'')
                          \<mapsto> path_join currentDir file)\<rparr>)
             else traverseEnhanceEntries currentDir rest jsFilesInDir ef
         | _ \<Rightarrow> traverseEnhanceEntries currentDir rest jsFilesInDir ef)
      else traverseEnhanceEntries currentDir rest jsFilesInDir ef)"

definition findEnhanceFiles :: "fsnode \<Rightarrow> fpath \<Rightarrow> js_error + enhanceFiles" where
  "findEnhanceFiles fs dir =
     (case fs_lookup fs dir of
        None \<Rightarrow> Inl IOError
      | Some n \<Rightarrow> traverseEnhance dir n \<lparr>exact = Map.empty, fallback = Map.empty\<rparr>)"

section \<open>jsToBase64 and getDefaultEnhanceBase64\<close>

text \<open>
  \<^verbatim>\<open>Buffer.from(content).toString('base64')\<close>: the standard alphabet, three bytes to
  four characters, padded with \<^verbatim>\<open>=\<close>.
\<close>

definition b64alphabet :: string where
  "b64alphabet = ''ABCDEFGHIJKLMNOPQRSTUVWXYZabcdefghijklmnopqrstuvwxyz0123456789+/''"

text \<open>The character of a six-bit group (always below 64 for groups cut from bytes).\<close>

definition b64char :: "nat \<Rightarrow> char" where
  "b64char n = b64alphabet ! n"

fun base64_bytes :: "nat list \<Rightarrow> string" where
  "base64_bytes [] = []"
| "base64_bytes [a] =
     [b64char (a div 4), b64char ((a mod 4) * 16), CHR ''='', CHR ''='']"
| "base64_bytes [a, b] =
     [b64char (a div 4), b64char ((a mod 4) * 16 + b div 16),
      b64char ((b mod 16) * 4), CHR ''='']"
| "base64_bytes (a # b # c # rest) =
     [b64char (a div 4), b64char ((a mod 4) * 16 + b div 16),
      b64char ((b mod 16) * 4 + c div 64), b64char (c mod 64)] @ base64_bytes rest"

definition base64 :: "string \<Rightarrow> string" where
  "base64 content = base64_bytes (map of_char content)"

definition jsToBase64 :: "fsnode \<Rightarrow> fpath \<Rightarrow> js_error + string" where
  "jsToBase64 fs filePath = thenE (readFileSync fs filePath) (\<lambda>content. Inr (base64 content))"

definition defaultEnhance :: string where
  "defaultEnhance =
     ''function enhance(originalContent) {'' @ [CHR 0x0A] @
     ''    console.log('Not Enhancing');'' @ [CHR 0x0A] @
     ''    return originalContent;'' @ [CHR 0x0A] @
     ''}''"

definition getDefaultEnhanceBase64 :: string where
  "getDefaultEnhanceBase64 = base64 defaultEnhance"

text \<open>
  The inverse, \<^verbatim>\<open>Buffer.from(data, 'base64').toString('utf8')\<close>, with which the
  repository's test of \<^verbatim>\<open>jsToBase64\<close> reads a payload back.
\<close>

definition b64index :: "char \<Rightarrow> nat" where
  "b64index c = length (takeWhile (\<lambda>x. x \<noteq> c) b64alphabet)"

fun base64_decode_bytes :: "string \<Rightarrow> nat list" where
  "base64_decode_bytes (c1 # c2 # c3 # c4 # rest) =
     (if c3 = CHR ''='' then [b64index c1 * 4 + b64index c2 div 16]
      else if c4 = CHR ''=''
      then [b64index c1 * 4 + b64index c2 div 16,
            (b64index c2 mod 16) * 16 + b64index c3 div 4]
      else [b64index c1 * 4 + b64index c2 div 16,
            (b64index c2 mod 16) * 16 + b64index c3 div 4,
            (b64index c3 mod 4) * 64 + b64index c4] @ base64_decode_bytes rest)"
| "base64_decode_bytes cs = []"

definition base64_decode :: "string \<Rightarrow> string" where
  "base64_decode s = map char_of (base64_decode_bytes s)"

section \<open>Mutating a parsed document\<close>

text \<open>\<^verbatim>\<open>v.length\<close>.\<close>

fun getLength :: "jsval \<Rightarrow> js_error + jsval" where
  "getLength JUndefined = Inl TypeError"
| "getLength JNull = Inl TypeError"
| "getLength (JArr xs ps) = Inr (JNum (int (length xs)))"
| "getLength (JStr s) = Inr (JNum (int (length s)))"
| "getLength (JObj kvs) = Inr (case map_of kvs ''length'' of None \<Rightarrow> JUndefined | Some v \<Rightarrow> v)"
| "getLength v = Inr JUndefined"

text \<open>
  \<^verbatim>\<open>v.push(x)\<close>, giving \<^verbatim>\<open>v\<close> as it is afterwards. Only an array has a callable
  \<^verbatim>\<open>push\<close>; on anything else the call throws a TypeError.
\<close>

fun js_push :: "jsval \<Rightarrow> jsval \<Rightarrow> js_error + jsval" where
  "js_push (JArr xs ps) x = Inr (JArr (xs @ [x]) ps)"
| "js_push v x = Inl TypeError"

text \<open>\<^verbatim>\<open>v[0]\<close>.\<close>

fun getIndex0 :: "jsval \<Rightarrow> js_error + jsval" where
  "getIndex0 JUndefined = Inl TypeError"
| "getIndex0 JNull = Inl TypeError"
| "getIndex0 (JArr xs ps) = Inr (case xs of [] \<Rightarrow> JUndefined | x # rest \<Rightarrow> x)"
| "getIndex0 (JStr s) = Inr (case s of [] \<Rightarrow> JUndefined | c # rest \<Rightarrow> JStr [c])"
| "getIndex0 (JObj kvs) = Inr (case map_of kvs ''0'' of None \<Rightarrow> JUndefined | Some v \<Rightarrow> v)"
| "getIndex0 v = Inr JUndefined"

text \<open>
  The assignment \<^verbatim>\<open>v.k = x\<close>, giving \<^verbatim>\<open>v\<close> as it is afterwards. The module is not
  in strict mode: assigning a property of a primitive does nothing, silently; on
  \<^verbatim>\<open>null\<close> and \<^verbatim>\<open>undefined\<close> it throws.
\<close>

fun setField :: "jsval \<Rightarrow> string \<Rightarrow> jsval \<Rightarrow> js_error + jsval" where
  "setField JUndefined k x = Inl TypeError"
| "setField JNull k x = Inl TypeError"
| "setField (JObj kvs) k x = Inr (JObj (AList.update k x kvs))"
| "setField (JArr xs ps) k x = Inr (JArr xs (AList.update k x ps))"
| "setField v k x = Inr v"

text \<open>
  The object found at \<^verbatim>\<open>v[0]\<close> was mutated in place; \<open>setIndex0 v y\<close> is \<^verbatim>\<open>v\<close>
  holding the mutated object \<open>y\<close> at that place.
\<close>

fun setIndex0 :: "jsval \<Rightarrow> jsval \<Rightarrow> jsval" where
  "setIndex0 (JArr (x # xs) ps) y = JArr (y # xs) ps"
| "setIndex0 (JObj kvs) y =
     (if map_of kvs ''0'' = None then JObj kvs else JObj (AList.update ''0'' y kvs))"
| "setIndex0 v y = v"

text \<open>
  The three statements that put the payload into the document:
  \<^verbatim>\<open>
    jsonData.content = jsonData.content || [];
    if (jsonData.content.length === 0) { jsonData.content.push({}); }
    jsonData.content[0].data = base64Content;
  \<close>
\<close>

definition ensureContent :: "jsval \<Rightarrow> js_error + jsval" where
  "ensureContent jsonData =
     thenE (getField jsonData ''content'') (\<lambda>content.
       setField jsonData ''content'' (if truthy content then content else JArr [] []))"

definition pushIfEmpty :: "jsval \<Rightarrow> js_error + jsval" where
  "pushIfEmpty jsonData =
     thenE (getField jsonData ''content'') (\<lambda>content.
     thenE (getLength content) (\<lambda>len.
       if len = JNum 0
       then thenE (js_push content (JObj [])) (\<lambda>content'. setField jsonData ''content'' content')
       else Inr jsonData))"

definition setFirstData :: "jsval \<Rightarrow> jsval \<Rightarrow> js_error + jsval" where
  "setFirstData jsonData base64Content =
     thenE (getField jsonData ''content'') (\<lambda>content.
     thenE (getIndex0 content) (\<lambda>first.
     thenE (setField first ''data'' base64Content) (\<lambda>first'.
       setField jsonData ''content'' (setIndex0 content first'))))"

definition splice :: "jsval \<Rightarrow> jsval \<Rightarrow> js_error + jsval" where
  "splice jsonData base64Content =
     thenE (ensureContent jsonData) (\<lambda>jsonData1.
     thenE (pushIfEmpty jsonData1) (\<lambda>jsonData2.
       setFirstData jsonData2 base64Content))"

section \<open>discoverLenses\<close>

text \<open>
  One element of \<^verbatim>\<open>validLenses\<close>. The field \<^verbatim>\<open>id\<close> is called \<open>id'\<close> here. The
  two fields that only an enhanced lens has are optional.
\<close>

record lensEntry =
  id' :: jsval
  name :: jsval
  url :: jsval
  version :: jsval
  status :: jsval
  path :: fpath
  hasBase64 :: bool
  enhancedWithJs :: "fpath option"
  enhanceSource :: "string option"
  lens :: jsval

text \<open>
  The object literal pushed for a lens, without the two optional fields;
  \<^verbatim>\<open>version\<close> is \<^verbatim>\<open>jsonData.version || 'unknown'\<close>.
\<close>

definition lensEntryOf :: "jsval \<Rightarrow> fpath \<Rightarrow> js_error + lensEntry" where
  "lensEntryOf jsonData filePath =
     thenE (getField jsonData ''id'') (\<lambda>i.
     thenE (getField jsonData ''name'') (\<lambda>n.
     thenE (getField jsonData ''url'') (\<lambda>u.
     thenE (getField jsonData ''version'') (\<lambda>v.
     thenE (getField jsonData ''status'') (\<lambda>s.
       Inr \<lparr>id' = i, name = n, url = u,
            version = (if truthy v then v else JStr ''unknown''),
            status = s, path = filePath, hasBase64 = True,
            enhancedWithJs = None, enhanceSource = None, lens = jsonData\<rparr>)))))"

text \<open>
  The choice of the script: the variables \<^verbatim>\<open>enhanceFile\<close> and \<^verbatim>\<open>enhanceSource\<close>
  (here \<open>source\<close>), followed through their assignments. A registered path is a
  non-empty string, hence truthy: \<^verbatim>\<open>!enhanceFile\<close> holds exactly when nothing is
  registered.
\<close>

definition chooseEnhanceFile :: "enhanceFiles \<Rightarrow> fpath \<Rightarrow> fpath option \<times> string" where
  "chooseEnhanceFile ef filePath =
     (let enhanceFile = exact ef filePath;
          source = ''exact-match''
      in if enhanceFile = None
         then (case fallback ef (path_dirname filePath) of
                 Some (f # others) \<Rightarrow> (Some f, ''fallback'')
               | _ \<Rightarrow> (enhanceFile, source))
         else (enhanceFile, source))"

text \<open>
  The payload (\<^verbatim>\<open>base64Content\<close>) with the final \<^verbatim>\<open>enhanceFile\<close> and
  \<^verbatim>\<open>enhanceSource\<close>: a script that cannot be read is replaced by the default.
\<close>

definition resolveEnhance ::
    "fsnode \<Rightarrow> enhanceFiles \<Rightarrow> fpath \<Rightarrow> string \<times> fpath option \<times> string" where
  "resolveEnhance fs ef filePath =
     (case chooseEnhanceFile ef filePath of
        (Some enhanceFile, source) \<Rightarrow>
          (case jsToBase64 fs enhanceFile of
             Inr base64Content \<Rightarrow> (base64Content, Some enhanceFile, source)
           | Inl jsError \<Rightarrow> (getDefaultEnhanceBase64, None, ''default''))
      | (None, source) \<Rightarrow> (getDefaultEnhanceBase64, None, ''default''))"

text \<open>
  The inner \<^verbatim>\<open>try\<close>: splice, validate again, and build the entry if the document is
  now valid. Whatever is thrown in there is caught and the file gives no entry.
\<close>

definition enhanceLens ::
    "fsnode \<Rightarrow> enhanceFiles \<Rightarrow> fpath \<Rightarrow> jsval \<Rightarrow> lensEntry option" where
  "enhanceLens fs ef filePath jsonData =
     (case resolveEnhance fs ef filePath of (base64Content, enhanceFile, source) \<Rightarrow>
        (case thenE (splice jsonData (JStr base64Content)) (\<lambda>jsonData'.
              thenE (validateFHIRLens jsonData') (\<lambda>revalidation.
                if isValid revalidation
                then thenE (lensEntryOf jsonData' filePath) (\<lambda>lensEntry.
                       Inr (Some (lensEntry\<lparr>enhancedWithJs := enhanceFile,
                                             enhanceSource := Some source\<rparr>)))
                else Inr None))
         of Inl enhanceError \<Rightarrow> None
          | Inr r \<Rightarrow> r))"

text \<open>
  The log lines interpolate \<^verbatim>\<open>jsonData.id\<close> in a template literal, which converts
  it to a string. The conversion of an object calls its \<^verbatim>\<open>toString\<close>; it throws a
  TypeError when the object has an own property of that name, which in parsed JSON is
  never a function. The conversion of an array joins the conversions of its elements,
  \<^verbatim>\<open>null\<close> and \<^verbatim>\<open>undefined\<close> counting as empty.
\<close>

fun stringifies :: "jsval \<Rightarrow> bool"
  and stringifiesAll :: "jsval list \<Rightarrow> bool" where
  "stringifies (JObj kvs) = (map_of kvs ''toString'' = None)"
| "stringifies (JArr xs ps) =
     (map_of ps ''toString'' = None \<and> (map_of ps ''join'' \<noteq> None \<or> stringifiesAll xs))"
| "stringifies JUndefined = True"
| "stringifies JNull = True"
| "stringifies (JBool b) = True"
| "stringifies (JNum n) = True"
| "stringifies (JStr s) = True"
| "stringifiesAll [] = True"
| "stringifiesAll (x # xs) = (stringifies x \<and> stringifiesAll xs)"

text \<open>
  A call of \<^verbatim>\<open>console.log\<close> or \<^verbatim>\<open>console.debug\<close> on a template literal that
  interpolates \<^verbatim>\<open>jsonData.id\<close>: nothing but the exception matters here.
\<close>

definition logWithId :: "jsval \<Rightarrow> js_error + unit" where
  "logWithId jsonData =
     thenE (getField jsonData ''id'') (\<lambda>i. if stringifies i then Inr () else Inl TypeError)"

text \<open>
  The gate \<^verbatim>\<open>validation.errors.length===1 && validation.errors[0].includes("content")\<close>.
\<close>

definition contentOnly :: "validation \<Rightarrow> bool" where
  "contentOnly validation =
     (length (errors validation) = 1 \<and> str_includes (errors validation ! 0) ''content'')"

text \<open>
  The body of the outer \<^verbatim>\<open>try\<close> for one file. \<open>JSON_parse\<close> stands for the
  platform's \<^verbatim>\<open>JSON.parse\<close>. Each of the two branches that can give an entry starts
  with a log line naming the lens; the later log lines of the enhancement interpolate the
  same \<^verbatim>\<open>id\<close> again and throw nothing new.
\<close>

definition processFile ::
    "(string \<Rightarrow> js_error + jsval) \<Rightarrow> fsnode \<Rightarrow> enhanceFiles \<Rightarrow> fpath
       \<Rightarrow> js_error + lensEntry option" where
  "processFile JSON_parse fs ef filePath =
     thenE (readFileSync fs filePath) (\<lambda>content.
     thenE (JSON_parse content) (\<lambda>jsonData.
     thenE (validateFHIRLens jsonData) (\<lambda>validation.
       if isValid validation
       then thenE (logWithId jsonData) (\<lambda>logged.
            thenE (lensEntryOf jsonData filePath) (\<lambda>lensEntry. Inr (Some lensEntry)))
       else if contentOnly validation
       then thenE (isLensMissingBase64Content jsonData) (\<lambda>missing.
              if missing
              then thenE (logWithId jsonData) (\<lambda>logged.
                     Inr (enhanceLens fs ef filePath jsonData))
              else Inr None)
       else Inr None)))"

text \<open>
  The loop over \<^verbatim>\<open>lensFiles\<close>: an exception while one file is processed is caught
  and leaves \<^verbatim>\<open>validLenses\<close> as it was.
\<close>

fun processFiles ::
    "(string \<Rightarrow> js_error + jsval) \<Rightarrow> fsnode \<Rightarrow> enhanceFiles \<Rightarrow> fpath list
       \<Rightarrow> lensEntry list \<Rightarrow> lensEntry list" where
  "processFiles JSON_parse fs ef [] validLenses = validLenses"
| "processFiles JSON_parse fs ef (filePath # rest) validLenses =
     processFiles JSON_parse fs ef rest
       (case processFile JSON_parse fs ef filePath of
          Inl error \<Rightarrow> validLenses
        | Inr None \<Rightarrow> validLenses
        | Inr (Some lensEntry) \<Rightarrow> validLenses @ [lensEntry])"

text \<open>
  \<^verbatim>\<open>discoverLenses(lensFilePath)\<close>: an exception of either walk reaches the outer
  \<^verbatim>\<open>catch\<close>, which throws it again.
\<close>

definition discoverLenses ::
    "(string \<Rightarrow> js_error + jsval) \<Rightarrow> fsnode \<Rightarrow> fpath \<Rightarrow> js_error + lensEntry list" where
  "discoverLenses JSON_parse fs lensFilePath =
     thenE (findJsonFiles fs lensFilePath) (\<lambda>lensFiles.
     thenE (findEnhanceFiles fs lensFilePath) (\<lambda>enhanceFiles.
       Inr (processFiles JSON_parse fs enhanceFiles lensFiles [])))"

section \<open>Notions of the specification\<close>

text \<open>
  The directory walk succeeds on a listable directory all of whose entries can be
  examined and all of whose subdirectories can be walked in turn.
\<close>

fun walkable :: "fsnode \<Rightarrow> bool"
  and walkableEntries :: "(string \<times> fsnode) list \<Rightarrow> bool" where
  "walkable (Dir files) = walkableEntries files"
| "walkable (File content) = False"
| "walkable Unreadable = False"
| "walkable Unlistable = False"
| "walkable Dangling = False"
| "walkableEntries [] = True"
| "walkableEntries ((file, n) # rest) =
     (n \<noteq> Dangling \<and> (isDirectory n \<longrightarrow> walkable n) \<and> walkableEntries rest)"

definition walkSucceeds :: "fsnode \<Rightarrow> fpath \<Rightarrow> bool" where
  "walkSucceeds fs dir = (case fs_lookup fs dir of None \<Rightarrow> False | Some n \<Rightarrow> walkable n)"

text \<open>A value that has properties of its own: an object or an array.\<close>

definition isObj :: "jsval \<Rightarrow> bool" where
  "isObj d = (truthy d \<and> typeof d = TObject)"

text \<open>
  A parsed document reaches the enhancement step when the validator rejects it with one
  error only, that error mentions content, and the payload is missing.
\<close>

definition entersEnhancement :: "jsval \<Rightarrow> bool" where
  "entersEnhancement d =
     (case validateFHIRLens d of
        Inl e \<Rightarrow> False
      | Inr v \<Rightarrow> \<not> isValid v \<and> contentOnly v \<and> isLensMissingBase64Content d = Inr True)"

text \<open>What one file contributes to the output: its entry, or nothing.\<close>

definition entryOfFile ::
    "(string \<Rightarrow> js_error + jsval) \<Rightarrow> fsnode \<Rightarrow> enhanceFiles \<Rightarrow> fpath \<Rightarrow> lensEntry option" where
  "entryOfFile JSON_parse fs ef filePath =
     (case processFile JSON_parse fs ef filePath of
        Inl error \<Rightarrow> None
      | Inr r \<Rightarrow> r)"

text \<open>
  The precedence of the payload source: the exact-match script registered for the
  document's own path, else the first fallback script registered for its directory,
  else none.
\<close>

definition resolveSource :: "enhanceFiles \<Rightarrow> fpath \<Rightarrow> (fpath \<times> string) option" where
  "resolveSource ef filePath =
     (case exact ef filePath of
        Some script \<Rightarrow> Some (script, ''exact-match'')
      | None \<Rightarrow>
          (case fallback ef (path_dirname filePath) of
             None \<Rightarrow> None
           | Some [] \<Rightarrow> None
           | Some (script # others) \<Rightarrow> Some (script, ''fallback'')))"

text \<open>
  The payload, the script path recorded and the provenance for a resolved source: the
  default payload, no script and \<^verbatim>\<open>default\<close> when there is no source or when reading
  it fails.
\<close>

definition payloadOf ::
    "fsnode \<Rightarrow> (fpath \<times> string) option \<Rightarrow> string \<times> fpath option \<times> string" where
  "payloadOf fs resolved =
     (case resolved of
        None \<Rightarrow> (getDefaultEnhanceBase64, None, ''default'')
      | Some (script, tag) \<Rightarrow>
          (case readFileSync fs script of
             Inl ioError \<Rightarrow> (getDefaultEnhanceBase64, None, ''default'')
           | Inr content \<Rightarrow> (base64 content, Some script, tag)))"

section \<open>Documents and directories of the scenarios\<close>

text \<open>The lens of the test \<^verbatim>\<open>rejects lens with missing id\<close>.\<close>

definition lensWithoutId :: jsval where
  "lensWithoutId = JObj
     [(''resourceType'', JStr ''Library''),
      (''url'', JStr ''http://example.com/Library/test-lens''),
      (''name'', JStr ''Test Lens''),
      (''status'', JStr ''draft''),
      (''content'', JArr [JObj [(''data'', JStr ''base64data'')]] [])]"

text \<open>A lens whose \<^verbatim>\<open>content\<close> is \<^verbatim>\<open>[null]\<close>.\<close>

definition lensWithNullItem :: jsval where
  "lensWithNullItem = JObj
     [(''resourceType'', JStr ''Library''),
      (''id'', JStr ''test-lens''),
      (''url'', JStr ''http://example.com/Library/test-lens''),
      (''name'', JStr ''Test Lens''),
      (''status'', JStr ''draft''),
      (''content'', JArr [JNull] [])]"

text \<open>
  The document \<^verbatim>\<open>x.json\<close> of the concrete scenario, as text and parsed, and its
  sibling script \<^verbatim>\<open>x.js\<close>.
\<close>

definition xtext :: string where
  \<open>xtext = ''{"resourceType":"Library","id":"x","url":"u","name":"n","status":"draft","content":[]}''\<close>

definition xdoc :: jsval where
  "xdoc = JObj
     [(''resourceType'', JStr ''Library''), (''id'', JStr ''x''), (''url'', JStr ''u''),
      (''name'', JStr ''n''), (''status'', JStr ''draft''), (''content'', JArr [] [])]"

definition xscript :: string where
  "xscript = ''function enhance(d){return d;}''"

text \<open>\<^verbatim>\<open>JSON.parse\<close> known on the listed texts; every other text is a syntax error.\<close>

definition parseTable :: "(string \<times> jsval) list \<Rightarrow> string \<Rightarrow> js_error + jsval" where
  "parseTable tbl content =
     (case map_of tbl content of Some v \<Rightarrow> Inr v | None \<Rightarrow> Inl SyntaxError)"

definition xfs :: fsnode where
  "xfs = Dir [(''repo'', Dir [(''x.json'', File xtext), (''x.js'', File xscript)])]"

text \<open>The entry that \<^verbatim>\<open>discoverLenses\<close> returns for \<^verbatim>\<open>x.json\<close>.\<close>

definition xentry :: lensEntry where
  "xentry =
     \<lparr>id' = JStr ''x'', name = JStr ''n'', url = JStr ''u'',
      version = JStr ''unknown'', status = JStr ''draft'',
      path = [''repo'', ''x.json''], hasBase64 = True,
      enhancedWithJs = None, enhanceSource = Some ''default'',
      lens = JObj
        [(''resourceType'', JStr ''Library''), (''id'', JStr ''x''),
         (''url'', JStr ''u''), (''name'', JStr ''n''),
         (''status'', JStr ''draft''),
         (''content'', JArr [JObj [(''data'', JStr getDefaultEnhanceBase64)]] [])]\<rparr>"

text \<open>
  The same directory with an unparsable document and an unreadable one beside
  \<^verbatim>\<open>x.json\<close>, and a directory with a subdirectory that cannot be listed.
\<close>

definition mixedfs :: fsnode where
  "mixedfs = Dir [(''repo'', Dir
     [(''bad.json'', File ''{''), (''locked.json'', Unreadable),
      (''x.json'', File xtext), (''x.js'', File xscript)])]"

definition brokenfs :: fsnode where
  "brokenfs = Dir [(''repo'', Dir [(''x.json'', File xtext), (''sub'', Unlistable)])]"

text \<open>
  A script whose text contains one of the four literal needles, in a comment, and the
  tables that \<^verbatim>\<open>findEnhanceFiles\<close> builds for a directory holding it as \<^verbatim>\<open>x.js\<close>.
\<close>

definition markedScript :: string where
  "markedScript = ''// export.*enhance'' @ [CHR 0x0A] @ xscript"

definition markedfs :: fsnode where
  "markedfs = Dir [(''repo'', Dir [(''x.json'', File xtext), (''x.js'', File markedScript)])]"

definition markedTables :: enhanceFiles where
  "markedTables =
     \<lparr>exact = [[''repo'', ''x.json''] \<mapsto> [''repo'', ''x.js'']],
      fallback = [[''repo''] \<mapsto> [[''repo'', ''x.js'']]]\<rparr>"

text \<open>
  Documents that are valid but for \<^verbatim>\<open>content\<close>, which is the string \<^verbatim>\<open>"abc"\<close>, the
  array \<^verbatim>\<open>["abc"]\<close> and the number \<^verbatim>\<open>5\<close>.
\<close>

definition docWithContent :: "jsval \<Rightarrow> jsval" where
  "docWithContent c = JObj
     [(''resourceType'', JStr ''Library''), (''id'', JStr ''x''), (''url'', JStr ''u''),
      (''name'', JStr ''n''), (''status'', JStr ''draft''), (''content'', c)]"

text \<open>A directory holding only the first of them, as \<^verbatim>\<open>abc.json\<close>.\<close>

definition abcText :: string where
  \<open>abcText = ''{"resourceType":"Library","id":"x","url":"u","name":"n","status":"draft","content":"abc"}''\<close>

definition abcfs :: fsnode where
  "abcfs = Dir [(''repo'', Dir [(''abc.json'', File abcText)])]"

section \<open>Facts about values\<close>

lemma typeof_TString: "typeof d = TString \<longleftrightarrow> (\<exists>s. d = JStr s)"
  by (cases d) auto

lemma getField_truthy:
  "truthy v \<Longrightarrow> getField v k = Inr (case getField v k of Inl e \<Rightarrow> JUndefined | Inr d \<Rightarrow> d)"
  by (cases v) auto

lemma getField_falsy:
  "\<not> truthy v \<Longrightarrow> (case getField v k of Inl e \<Rightarrow> JUndefined | Inr d \<Rightarrow> d) = JUndefined"
  by (cases v) auto

lemma isObj_cases: "isObj d \<Longrightarrow> (\<exists>kvs. d = JObj kvs) \<or> (\<exists>xs ps. d = JArr xs ps)"
  by (cases d) (auto simp: isObj_def)

lemma getField_obj: "isObj d \<Longrightarrow> \<exists>c. getField d k = Inr c"
  by (cases d) (auto simp: isObj_def)

lemma setField_obj:
  assumes "isObj d"
  obtains d' where "setField d k x = Inr d'" "isObj d'"
    "\<And>k'. getField d' k' = (if k' = k then Inr x else getField d k')"
  using isObj_cases[OF assms]
  by (auto simp: isObj_def update_conv')

lemma setField_not_obj: "setField d k x = Inr d' \<Longrightarrow> \<not> isObj d \<Longrightarrow> d' = d"
  by (cases d) (auto simp: isObj_def)

section \<open>The validator\<close>

text \<open>
  Claim C3 says that a document whose \<^verbatim>\<open>id\<close> is absent, not a string or empty is
  rejected with a message about \<^verbatim>\<open>id\<close>. The validator never reads \<^verbatim>\<open>id\<close>: the lens
  of the repository's own test \<^verbatim>\<open>rejects lens with missing id\<close>, which expects
  \<^verbatim>\<open>id is required and must be a string\<close>, is accepted with no error at all.
\<close>

theorem validateFHIRLens_accepts_missing_id:
  "validateFHIRLens lensWithoutId = Inr \<lparr>isValid = True, errors = []\<rparr>"
  by (simp add: lensWithoutId_def validateFHIRLens_def thenE_def checkContent_def
      checkResourceType_def checkString_def)

text \<open>
  That lens passes the short-circuit for non-objects, and has no \<^verbatim>\<open>id\<close>.
\<close>

theorem validateFHIRLens_accepts_missing_id_witness:
  "truthy lensWithoutId \<and> typeof lensWithoutId = TObject
   \<and> getField lensWithoutId ''id'' = Inr JUndefined
   \<and> validateFHIRLens lensWithoutId = Inr \<lparr>isValid = True, errors = []\<rparr>"
  using validateFHIRLens_accepts_missing_id by (simp add: lensWithoutId_def)

text \<open>More generally, the result never depends on \<^verbatim>\<open>id\<close>.\<close>

lemma validateFHIRLens_id_irrelevant:
  "validateFHIRLens (JObj (AList.update ''id'' x kvs)) = validateFHIRLens (JObj kvs)"
  by (simp add: validateFHIRLens_def update_conv')

text \<open>
  Claim C4 says that the validator returns a result for every input, also when
  \<^verbatim>\<open>content\<close> holds \<^verbatim>\<open>null\<close>. On the content \<^verbatim>\<open>[null]\<close> the unguarded read
  \<^verbatim>\<open>item.data\<close> throws a TypeError and no result is returned.
\<close>

theorem validateFHIRLens_null_item_throws:
  "validateFHIRLens lensWithNullItem = Inl TypeError"
  by (simp add: lensWithNullItem_def validateFHIRLens_def thenE_def checkContent_def)

text \<open>
  That lens passes the short-circuit for non-objects, and its fields other than
  \<^verbatim>\<open>content\<close> are as the validator wants them.
\<close>

theorem validateFHIRLens_null_item_throws_witness:
  "truthy lensWithNullItem \<and> typeof lensWithNullItem = TObject
   \<and> contentField lensWithNullItem = JArr [JNull] []
   \<and> validateFHIRLens lensWithNullItem = Inl TypeError"
  using validateFHIRLens_null_item_throws
  by (simp add: lensWithNullItem_def contentField_def)

text \<open>
  Claim C8, with the message the code has: for every input that is \<^verbatim>\<open>null\<close>, absent
  or not an object, the validator returns exactly the result that is not valid and
  whose only error is \<^verbatim>\<open>Lens must be a JSON object\<close>; no other check runs.
\<close>

theorem validateFHIRLens_non_object:
  "v = JNull \<or> v = JUndefined \<or> typeof v \<noteq> TObject \<Longrightarrow>
   validateFHIRLens v = Inr \<lparr>isValid = False, errors = [''Lens must be a JSON object'']\<rparr>"
  by (auto simp: validateFHIRLens_def)

text \<open>The string of the test \<^verbatim>\<open>rejects non-object lens\<close> is such an input.\<close>

theorem validateFHIRLens_non_object_witness:
  "(JStr ''not an object'' = JNull \<or> JStr ''not an object'' = JUndefined
      \<or> typeof (JStr ''not an object'') \<noteq> TObject)
   \<and> validateFHIRLens (JStr ''not an object'')
       = Inr \<lparr>isValid = False, errors = [''Lens must be a JSON object'']\<rparr>"
  using validateFHIRLens_non_object [of "JStr ''not an object''"] by simp

text \<open>
  The message is not \<^verbatim>\<open>document must be a structured object\<close>: on \<^verbatim>\<open>null\<close> the
  result differs from the one with that text.
\<close>

theorem validateFHIRLens_non_object_message_counterexample:
  "validateFHIRLens JNull \<noteq>
     Inr \<lparr>isValid = False, errors = [''document must be a structured object'']\<rparr>"
  by (simp add: validateFHIRLens_def)

subsection \<open>The two messages about content\<close>

lemma otherChecks_no_content:
  "filter (\<lambda>e. str_includes e ''content'')
     (checkResourceType a
        @ checkString b ''url is required and must be a string''
        @ checkString c ''name is required and must be a string''
        @ checkString d ''status is required and must be a string'') = []"
  by (simp add: checkResourceType_def checkString_def)

lemma validateFHIRLens_object:
  assumes "truthy v" "typeof v = TObject"
  obtains pre where "filter (\<lambda>e. str_includes e ''content'') pre = []"
    and "validateFHIRLens v =
           thenE (checkContent (contentField v)) (\<lambda>ce.
             Inr \<lparr>isValid = (length (pre @ ce) = 0), errors = pre @ ce\<rparr>)"
proof -
  from assms obtain xs ps kvs where "v = JArr xs ps \<or> v = JObj kvs"
    by (cases v) auto
  then show thesis
  proof
    assume v: "v = JArr xs ps"
    show thesis
      by (rule that[OF otherChecks_no_content])
         (simp add: v validateFHIRLens_def thenE_def contentField_def Let_def)
  next
    assume v: "v = JObj kvs"
    show thesis
      by (rule that[OF otherChecks_no_content])
         (simp add: v validateFHIRLens_def thenE_def contentField_def Let_def)
  qed
qed

lemma hasBase64Content_eq:
  "hasBase64Content xs = Inr b \<Longrightarrow> b = (\<exists>item \<in> set xs. nonEmptyStringData item)"
proof (induction xs)
  case Nil then show ?case by simp
next
  case (Cons x xs)
  then show ?case
    by (cases x) (auto simp: thenE_def nonEmptyStringData_def dataField_def typeof_TString
        split: sum.splits if_splits option.splits)
qed

lemma checkContent_result:
  "checkContent c = Inr ce \<Longrightarrow>
     ce = (if \<not> isArray c then [''content must be an array'']
           else if \<exists>item \<in> set (elems c). nonEmptyStringData item then []
           else [''content must include at least one item with base64 encoded data''])"
  by (auto simp: checkContent_def thenE_def split: if_splits sum.splits
      dest: hasBase64Content_eq)

lemma no_content_not_member:
  "filter (\<lambda>e. str_includes e ''content'') pre = [] \<Longrightarrow> str_includes x ''content''
     \<Longrightarrow> x \<notin> set pre"
  by (simp add: filter_empty_conv) blast

text \<open>
  Claim C10: whenever the validator returns a result, its errors do not hold both
  \<^verbatim>\<open>content must be an array\<close> and
  \<^verbatim>\<open>content must include at least one item with base64 encoded data\<close>, and at most one
  of its errors mentions \<^verbatim>\<open>content\<close> at all; so the two messages never stand together
  in the way of the gate that asks for exactly one error. The first is there exactly
  when the input is an object whose content is not an array, the second exactly when it
  is an object whose content is an array with no item holding a non-empty string
  \<^verbatim>\<open>data\<close>.
\<close>

theorem validateFHIRLens_content_messages_exclusive:
  "validateFHIRLens v = Inr r \<Longrightarrow>
     \<not> (''content must be an array'' \<in> set (errors r) \<and>
        ''content must include at least one item with base64 encoded data'' \<in> set (errors r))
     \<and> length (filter (\<lambda>e. str_includes e ''content'') (errors r)) \<le> 1
     \<and> (''content must be an array'' \<in> set (errors r))
          = (isObj v \<and> \<not> isArray (contentField v))
     \<and> (''content must include at least one item with base64 encoded data'' \<in> set (errors r))
          = (isObj v \<and> isArray (contentField v)
             \<and> (\<forall>item \<in> set (elems (contentField v)). \<not> nonEmptyStringData item))"
proof (cases "isObj v")
  case False
  assume "validateFHIRLens v = Inr r"
  with False have "errors r = [''Lens must be a JSON object'']"
    by (auto simp: validateFHIRLens_def isObj_def)
  with False show ?thesis by simp
next
  case True
  assume r: "validateFHIRLens v = Inr r"
  from True obtain pre where pre: "filter (\<lambda>e. str_includes e ''content'') pre = []"
    and eq: "validateFHIRLens v =
           thenE (checkContent (contentField v)) (\<lambda>ce.
             Inr \<lparr>isValid = (length (pre @ ce) = 0), errors = pre @ ce\<rparr>)"
    unfolding isObj_def by (blast elim: validateFHIRLens_object)
  from r eq obtain ce where ce: "checkContent (contentField v) = Inr ce"
    and e: "errors r = pre @ ce"
    by (auto simp: thenE_def split: sum.splits)
  have i1: "str_includes ''content must be an array'' ''content''" by simp
  have i2: "str_includes ''content must include at least one item with base64 encoded data''
              ''content''"
    by simp
  note n1 = no_content_not_member[OF pre i1] and n2 = no_content_not_member[OF pre i2]
  show ?thesis
    unfolding e checkContent_result[OF ce] using n1 n2 True by (simp add: pre)
qed

text \<open>A document with nothing right: five errors, one of them about content.\<close>

theorem validateFHIRLens_content_messages_exclusive_witness:
  "validateFHIRLens (JObj [(''content'', JNum 1)]) =
     Inr \<lparr>isValid = False,
          errors = [''resourceType must be \"Library\"'',
                    ''url is required and must be a string'',
                    ''name is required and must be a string'',
                    ''status is required and must be a string'',
                    ''content must be an array'']\<rparr>
   \<and> length (filter (\<lambda>e. str_includes e ''content'')
        [''resourceType must be \"Library\"'',
         ''url is required and must be a string'',
         ''name is required and must be a string'',
         ''status is required and must be a string'',
         ''content must be an array'']) \<le> 1"
proof -
  have h: "validateFHIRLens (JObj [(''content'', JNum 1)]) =
     Inr \<lparr>isValid = False,
          errors = [''resourceType must be \"Library\"'',
                    ''url is required and must be a string'',
                    ''name is required and must be a string'',
                    ''status is required and must be a string'',
                    ''content must be an array'']\<rparr>"
    by (simp add: validateFHIRLens_def thenE_def checkContent_def checkResourceType_def
        checkString_def)
  from validateFHIRLens_content_messages_exclusive[OF h] h show ?thesis by simp
qed

section \<open>The missing-payload predicate\<close>

lemma hasData_eq: "hasData c = Inr (nonEmptyStringData c)"
proof (cases "truthy c")
  case True
  from getField_truthy[OF True, of "''data''"]
  have "getField c ''data'' = Inr (dataField c)" by (simp add: dataField_def)
  then show ?thesis
    by (cases "dataField c") (auto simp: hasData_def nonEmptyStringData_def thenE_def True)
next
  case False
  then show ?thesis using getField_falsy[OF False, of "''data''"]
    by (simp add: hasData_def nonEmptyStringData_def dataField_def)
qed

lemma js_some_hasData:
  "js_some hasData xs = Inr (\<exists>item \<in> set xs. nonEmptyStringData item)"
  by (induction xs) (auto simp: thenE_def hasData_eq)

text \<open>
  Claim C7: on a document (any value but \<^verbatim>\<open>null\<close> and \<^verbatim>\<open>undefined\<close>, whose
  properties cannot be read) \<^verbatim>\<open>isLensMissingBase64Content\<close> returns, without throwing,
  true exactly when \<^verbatim>\<open>content\<close> is absent, not an array or empty, or has exactly one
  item whose \<^verbatim>\<open>data\<close> is absent, empty or not a string, or has several items none of
  which has a non-empty string \<^verbatim>\<open>data\<close>; and false otherwise.
\<close>

theorem isLensMissingBase64Content_spec:
  assumes "doc \<noteq> JUndefined" "doc \<noteq> JNull"
  shows "isLensMissingBase64Content doc = Inr (missingPayload doc)"
proof -
  from assms obtain c where c: "getField doc ''content'' = Inr c"
    by (cases doc) auto
  then have cf: "contentField doc = c" by (simp add: contentField_def)
  show ?thesis
  proof (cases "isArray c")
    case False
    then show ?thesis
      by (simp add: isLensMissingBase64Content_def missingPayload_def thenE_def c cf)
  next
    case True
    then obtain xs ps where cx: "c = JArr xs ps" by (cases c) auto
    consider "xs = []" | item where "xs = [item]" | "length xs > 1"
      by (cases xs; cases "tl xs"; auto)
    then show ?thesis
    proof cases
      case 1
      then show ?thesis
        by (simp add: isLensMissingBase64Content_def missingPayload_def thenE_def c cf cx)
    next
      case 2
      show ?thesis
      proof (cases "truthy item")
        case True
        from getField_truthy[OF True, of "''data''"]
        have "getField item ''data'' = Inr (dataField item)" by (simp add: dataField_def)
        then show ?thesis
          by (cases "dataField item")
             (auto simp add: isLensMissingBase64Content_def missingPayload_def thenE_def
                c cf cx 2 True)
      next
        case False
        then show ?thesis using getField_falsy[OF False, of "''data''"]
          by (simp add: isLensMissingBase64Content_def missingPayload_def thenE_def
              c cf cx 2 dataField_def)
      qed
    next
      case 3
      then show ?thesis
        by (auto simp add: isLensMissingBase64Content_def missingPayload_def thenE_def
            c cf cx js_some_hasData)
    qed
  qed
qed

text \<open>Two items, the second with a payload: not missing.\<close>

theorem isLensMissingBase64Content_spec_witness:
  "JObj [(''content'', JArr [JObj [], JObj [(''data'', JStr ''eA=='')]] [])] \<noteq> JUndefined
   \<and> JObj [(''content'', JArr [JObj [], JObj [(''data'', JStr ''eA=='')]] [])] \<noteq> JNull
   \<and> missingPayload (JObj [(''content'', JArr [JObj [], JObj [(''data'', JStr ''eA=='')]] [])])
       = False"
proof -
  have "isLensMissingBase64Content
          (JObj [(''content'', JArr [JObj [], JObj [(''data'', JStr ''eA=='')]] [])]) = Inr False"
    by (simp add: isLensMissingBase64Content_def thenE_def hasData_def)
  with isLensMissingBase64Content_spec
         [of "JObj [(''content'', JArr [JObj [], JObj [(''data'', JStr ''eA=='')]] [])]"]
  show ?thesis by simp
qed

section \<open>The directory walk\<close>

text \<open>Both traversals throw exactly when the tree is not walkable.\<close>

lemma traverseJson_fails_iff:
  "(\<exists>err. traverseJson cur n acc = Inl err) \<longleftrightarrow> \<not> walkable n"
  "(\<exists>err. traverseJsonEntries cur es acc = Inl err) \<longleftrightarrow> \<not> walkableEntries es"
proof (induction cur n acc and cur es acc rule: traverseJson_traverseJsonEntries.induct)
  case (7 currentDir fname n rest jsonFiles)
  show ?case
  proof (cases "n = Dangling")
    case True
    then show ?thesis by simp
  next
    case nd: False
    show ?thesis
    proof (cases "isDirectory n")
      case True
      show ?thesis
      proof (cases "traverseJson (path_join currentDir fname) n jsonFiles")
        case (Inl e)
        with 7(1)[OF nd True] have "\<not> walkable n" by auto
        with Inl nd True show ?thesis by (simp add: thenE_def)
      next
        case (Inr acc')
        with 7(1)[OF nd True] have w: "walkable n" by auto
        from 7(2)[OF nd True] Inr w nd True show ?thesis by (simp add: thenE_def)
      qed
    next
      case False
      with nd 7(3,4) show ?thesis by (cases "extname fname = ''.json''") simp_all
    qed
  qed
qed simp_all

lemma traverseEnhance_fails_iff:
  "(\<exists>err. traverseEnhance cur n ef = Inl err) \<longleftrightarrow> \<not> walkable n"
  "(\<exists>err. traverseEnhanceEntries cur es js ef = Inl err) \<longleftrightarrow> \<not> walkableEntries es"
proof (induction cur n ef and cur es js ef rule: traverseEnhance_traverseEnhanceEntries.induct)
  case (1 currentDir files ef)
  then show ?case by (auto simp: thenE_def split: sum.splits prod.splits)
next
  case (7 currentDir fname n rest jsFilesInDir ef)
  show ?case
  proof (cases "n = Dangling")
    case True
    then show ?thesis by simp
  next
    case nd: False
    show ?thesis
    proof (cases "isDirectory n")
      case True
      show ?thesis
      proof (cases "traverseEnhance (path_join currentDir fname) n ef")
        case (Inl e)
        with 7(1)[OF nd True] have "\<not> walkable n" by auto
        with Inl nd True show ?thesis by (simp add: thenE_def)
      next
        case (Inr ef')
        with 7(1)[OF nd True] have w: "walkable n" by auto
        from 7(2)[OF nd True] Inr w nd True show ?thesis by (simp add: thenE_def)
      qed
    next
      case False
      show ?thesis
      proof (cases "extname fname = ''.js''")
        case True
        with False nd 7(3,4,5,6,7,8) show ?thesis
          by (cases n) (simp_all split: if_splits)
      next
        case ne: False
        with False nd 7(9) show ?thesis by simp
      qed
    qed
  qed
qed simp_all

lemma findJsonFiles_fails_iff:
  "(\<exists>err. findJsonFiles fs root = Inl err) \<longleftrightarrow> \<not> walkSucceeds fs root"
  by (auto simp: findJsonFiles_def walkSucceeds_def traverseJson_fails_iff split: option.splits)

lemma findEnhanceFiles_fails_iff:
  "(\<exists>err. findEnhanceFiles fs root = Inl err) \<longleftrightarrow> \<not> walkSucceeds fs root"
  by (auto simp: findEnhanceFiles_def walkSucceeds_def traverseEnhance_fails_iff
      split: option.splits)

section \<open>One file\<close>

lemma lensEntryOf_fields:
  "lensEntryOf d f = Inr e \<Longrightarrow>
     lens e = d \<and> path e = f \<and> enhancedWithJs e = None \<and> enhanceSource e = None"
  by (auto simp: lensEntryOf_def thenE_def split: sum.splits)

lemma validateFHIRLens_isValid:
  "validateFHIRLens d = Inr v \<Longrightarrow> isValid v \<Longrightarrow> v = \<lparr>isValid = True, errors = []\<rparr>"
  by (auto simp: validateFHIRLens_def thenE_def Let_def split: if_splits sum.splits)

lemma enhanceLens_Some:
  assumes "enhanceLens fs ef filePath d = Some e"
  obtains payload script tag where
    "resolveEnhance fs ef filePath = (payload, script, tag)"
    "splice d (JStr payload) = Inr (lens e)"
    "validateFHIRLens (lens e) = Inr \<lparr>isValid = True, errors = []\<rparr>"
    "enhancedWithJs e = script" "enhanceSource e = Some tag" "path e = filePath"
proof -
  obtain payload script tag where r: "resolveEnhance fs ef filePath = (payload, script, tag)"
    by (cases "resolveEnhance fs ef filePath") auto
  from assms r obtain d' v e0 where
    s: "splice d (JStr payload) = Inr d'" and v: "validateFHIRLens d' = Inr v"
    and iv: "isValid v" and e0: "lensEntryOf d' filePath = Inr e0"
    and e: "e = e0\<lparr>enhancedWithJs := script, enhanceSource := Some tag\<rparr>"
    by (auto simp: enhanceLens_def thenE_def split: sum.splits if_splits)
  from lensEntryOf_fields[OF e0] e have l: "lens e = d'" "path e = filePath"
    "enhancedWithJs e = script" "enhanceSource e = Some tag" by auto
  from validateFHIRLens_isValid[OF v iv] v
  have "validateFHIRLens d' = Inr \<lparr>isValid = True, errors = []\<rparr>"
    by simp
  with r s l show thesis by (auto intro: that)
qed

lemma processFile_Some:
  assumes "processFile P fs ef filePath = Inr (Some e)"
  obtains (valid) body d where "readFileSync fs filePath = Inr body" "P body = Inr d"
      "validateFHIRLens d = Inr \<lparr>isValid = True, errors = []\<rparr>"
      "lensEntryOf d filePath = Inr e"
  | (enhanced) body d v where "readFileSync fs filePath = Inr body" "P body = Inr d"
      "validateFHIRLens d = Inr v" "\<not> isValid v" "contentOnly v"
      "isLensMissingBase64Content d = Inr True" "enhanceLens fs ef filePath d = Some e"
proof -
  from assms obtain body d v where t: "readFileSync fs filePath = Inr body"
    and d: "P body = Inr d" and v: "validateFHIRLens d = Inr v"
    by (auto simp: processFile_def thenE_def split: sum.splits)
  show thesis
  proof (cases "isValid v")
    case True
    with assms t d v have "lensEntryOf d filePath = Inr e"
      by (auto simp: processFile_def thenE_def split: sum.splits if_splits)
    with validateFHIRLens_isValid[OF v True] v t d show thesis by (auto intro: valid)
  next
    case False
    with assms t d v have "contentOnly v" "isLensMissingBase64Content d = Inr True"
      "enhanceLens fs ef filePath d = Some e"
      by (auto simp: processFile_def thenE_def split: sum.splits if_splits)
    with False t d v show thesis by (auto intro: enhanced)
  qed
qed

lemma processFile_lens_valid:
  assumes "processFile P fs ef filePath = Inr (Some e)"
  shows "validateFHIRLens (lens e) = Inr \<lparr>isValid = True, errors = []\<rparr>"
  using assms
proof (cases rule: processFile_Some)
  case (valid body d)
  with lensEntryOf_fields[of d filePath e] show ?thesis by simp
next
  case (enhanced body d v)
  from enhanced(7) show ?thesis by (rule enhanceLens_Some)
qed

lemma processFiles_eq:
  "processFiles P fs ef files acc = acc @ List.map_filter (entryOfFile P fs ef) files"
  by (induction files arbitrary: acc)
     (auto simp: entryOfFile_def List.map_filter_simps split: sum.splits option.splits)

section \<open>The scenarios, evaluated\<close>

lemma getDefaultEnhanceBase64_value:
  "getDefaultEnhanceBase64 = ''ZnVuY3Rpb24gZW5oYW5jZShvcmlnaW5hbENvbnRlbnQpIHsKICAgIGNvbnNvbGUubG9nKCdOb3QgRW5oYW5jaW5nJyk7CiAgICByZXR1cm4gb3JpZ2luYWxDb250ZW50Owp9''"
  by (simp add: getDefaultEnhanceBase64_def defaultEnhance_def base64_def b64char_def
      b64alphabet_def)

lemma getDefaultEnhanceBase64_nonempty: "getDefaultEnhanceBase64 \<noteq> []"
  by (simp add: getDefaultEnhanceBase64_value)

lemma xscript_not_detected: "\<not> hasEnhanceDeclaration xscript"
  by (simp add: hasEnhanceDeclaration_def xscript_def)

lemma findJsonFiles_xfs: "findJsonFiles xfs [''repo''] = Inr [[''repo'', ''x.json'']]"
  by (simp add: findJsonFiles_def xfs_def path_join_def extname_def)

lemma findEnhanceFiles_xfs:
  "findEnhanceFiles xfs [''repo''] = Inr \<lparr>exact = Map.empty, fallback = Map.empty\<rparr>"
  by (simp add: findEnhanceFiles_def xfs_def path_join_def extname_def xscript_not_detected
      thenE_def)

lemma validateFHIRLens_xdoc:
  "validateFHIRLens xdoc = Inr \<lparr>isValid = False,
      errors = [''content must include at least one item with base64 encoded data'']\<rparr>"
  by (simp add: xdoc_def validateFHIRLens_def thenE_def checkContent_def checkResourceType_def
      checkString_def)

lemma contentOnly_xdoc:
  "contentOnly \<lparr>isValid = False,
      errors = [''content must include at least one item with base64 encoded data'']\<rparr>"
  by (simp add: contentOnly_def)

lemma isLensMissingBase64Content_xdoc: "isLensMissingBase64Content xdoc = Inr True"
  by (simp add: isLensMissingBase64Content_def xdoc_def thenE_def)

lemma logWithId_xdoc: "logWithId xdoc = Inr ()"
  by (simp add: logWithId_def xdoc_def thenE_def)

lemma validateFHIRLens_xentry:
  "validateFHIRLens (lens xentry) = Inr \<lparr>isValid = True, errors = []\<rparr>"
  by (simp add: xentry_def validateFHIRLens_def thenE_def checkContent_def
      checkResourceType_def checkString_def getDefaultEnhanceBase64_nonempty)

lemma splice_xdoc: "splice xdoc (JStr getDefaultEnhanceBase64) = Inr (lens xentry)"
  by (simp add: splice_def ensureContent_def pushIfEmpty_def setFirstData_def xdoc_def
      thenE_def xentry_def)

lemma enhanceLens_xdoc_default:
  assumes "resolveEnhance fs ef [''repo'', ''x.json''] = (getDefaultEnhanceBase64, None, ''default'')"
  shows "enhanceLens fs ef [''repo'', ''x.json''] xdoc = Some xentry"
  by (simp add: enhanceLens_def assms splice_xdoc validateFHIRLens_xentry thenE_def)
     (simp add: lensEntryOf_def xentry_def thenE_def)

lemma processFile_xdoc_default:
  assumes "readFileSync fs [''repo'', ''x.json''] = Inr xtext"
    and "resolveEnhance fs ef [''repo'', ''x.json''] = (getDefaultEnhanceBase64, None, ''default'')"
  shows "processFile (parseTable [(xtext, xdoc)]) fs ef [''repo'', ''x.json''] = Inr (Some xentry)"
  by (simp add: processFile_def assms(1) parseTable_def validateFHIRLens_xdoc contentOnly_xdoc
      isLensMissingBase64Content_xdoc logWithId_xdoc enhanceLens_xdoc_default[OF assms(2)]
      thenE_def)

lemma processFile_xfs:
  "processFile (parseTable [(xtext, xdoc)]) xfs \<lparr>exact = Map.empty, fallback = Map.empty\<rparr>
     [''repo'', ''x.json''] = Inr (Some xentry)"
  by (rule processFile_xdoc_default)
     (simp_all add: readFileSync_def xfs_def resolveEnhance_def chooseEnhanceFile_def)

lemma discoverLenses_xfs:
  "discoverLenses (parseTable [(xtext, xdoc)]) xfs [''repo''] = Inr [xentry]"
  by (simp add: discoverLenses_def findJsonFiles_xfs findEnhanceFiles_xfs thenE_def
      processFile_xfs)

lemma walkSucceeds_mixedfs: "walkSucceeds mixedfs [''repo'']"
  by (simp add: walkSucceeds_def mixedfs_def)

lemma walkSucceeds_brokenfs: "\<not> walkSucceeds brokenfs [''repo'']"
  by (simp add: walkSucceeds_def brokenfs_def)

lemma findJsonFiles_mixedfs:
  "findJsonFiles mixedfs [''repo''] =
     Inr [[''repo'', ''bad.json''], [''repo'', ''locked.json''], [''repo'', ''x.json'']]"
  by (simp add: findJsonFiles_def mixedfs_def path_join_def extname_def)

lemma findEnhanceFiles_mixedfs:
  "findEnhanceFiles mixedfs [''repo''] = Inr \<lparr>exact = Map.empty, fallback = Map.empty\<rparr>"
  by (simp add: findEnhanceFiles_def mixedfs_def path_join_def extname_def
      xscript_not_detected thenE_def)

lemma xtext_not_brace: "xtext \<noteq> ''{''"
  by (simp add: xtext_def)

lemma entryOfFile_mixedfs:
  "entryOfFile (parseTable [(xtext, xdoc)]) mixedfs \<lparr>exact = Map.empty, fallback = Map.empty\<rparr>
     [''repo'', ''bad.json''] = None"
  "entryOfFile (parseTable [(xtext, xdoc)]) mixedfs \<lparr>exact = Map.empty, fallback = Map.empty\<rparr>
     [''repo'', ''locked.json''] = None"
  "entryOfFile (parseTable [(xtext, xdoc)]) mixedfs \<lparr>exact = Map.empty, fallback = Map.empty\<rparr>
     [''repo'', ''x.json''] = Some xentry"
proof -
  show "entryOfFile (parseTable [(xtext, xdoc)]) mixedfs
          \<lparr>exact = Map.empty, fallback = Map.empty\<rparr> [''repo'', ''bad.json''] = None"
    using xtext_not_brace
    by (auto simp add: entryOfFile_def processFile_def readFileSync_def mixedfs_def parseTable_def
        thenE_def)
  show "entryOfFile (parseTable [(xtext, xdoc)]) mixedfs
          \<lparr>exact = Map.empty, fallback = Map.empty\<rparr> [''repo'', ''locked.json''] = None"
    by (simp add: entryOfFile_def processFile_def readFileSync_def mixedfs_def thenE_def)
  have "processFile (parseTable [(xtext, xdoc)]) mixedfs
          \<lparr>exact = Map.empty, fallback = Map.empty\<rparr> [''repo'', ''x.json''] = Inr (Some xentry)"
    by (rule processFile_xdoc_default)
       (simp_all add: readFileSync_def mixedfs_def resolveEnhance_def chooseEnhanceFile_def)
  then show "entryOfFile (parseTable [(xtext, xdoc)]) mixedfs
          \<lparr>exact = Map.empty, fallback = Map.empty\<rparr> [''repo'', ''x.json''] = Some xentry"
    by (simp add: entryOfFile_def)
qed

section \<open>The pipeline\<close>

text \<open>
  Claim C2: whatever the directory, every entry that \<^verbatim>\<open>discoverLenses\<close> returns
  carries in \<^verbatim>\<open>lens\<close> a document on which \<^verbatim>\<open>validateFHIRLens\<close> returns
  \<^verbatim>\<open>isValid = true\<close> with no errors.
\<close>

theorem discoverLenses_results_valid:
  assumes "discoverLenses P fs root = Inr ls" and "e \<in> set ls"
  shows "validateFHIRLens (lens e) = Inr \<lparr>isValid = True, errors = []\<rparr>"
proof -
  from assms(1) obtain files ef where "ls = processFiles P fs ef files []"
    by (auto simp: discoverLenses_def thenE_def split: sum.splits)
  with assms(2) obtain f where "entryOfFile P fs ef f = Some e"
    by (auto simp: processFiles_eq List.map_filter_def)
  then have "processFile P fs ef f = Inr (Some e)"
    by (auto simp: entryOfFile_def split: sum.splits)
  then show ?thesis by (rule processFile_lens_valid)
qed

text \<open>The entry found for \<^verbatim>\<open>x.json\<close> in the concrete scenario is such an entry.\<close>

theorem discoverLenses_results_valid_witness:
  "discoverLenses (parseTable [(xtext, xdoc)]) xfs [''repo''] = Inr [xentry]
   \<and> xentry \<in> set [xentry]
   \<and> validateFHIRLens (lens xentry) = Inr \<lparr>isValid = True, errors = []\<rparr>"
  using discoverLenses_results_valid [OF discoverLenses_xfs, of xentry] discoverLenses_xfs
  by simp

lemma processFile_unreadable:
  "readFileSync fs f = Inl err \<Longrightarrow> processFile P fs ef f = Inl err"
  by (simp add: processFile_def thenE_def)

lemma processFile_unparsable:
  "readFileSync fs f = Inr c \<Longrightarrow> P c = Inl err \<Longrightarrow> processFile P fs ef f = Inl err"
  by (simp add: processFile_def thenE_def)

lemma entryOfFile_enhancement_throws:
  assumes "readFileSync fs f = Inr c" and "P c = Inr d" and "entersEnhancement d"
    and "splice d (JStr (fst (resolveEnhance fs ef f))) = Inl err"
  shows "entryOfFile P fs ef f = None"
proof -
  from assms(3) obtain v where v: "validateFHIRLens d = Inr v" "\<not> isValid v" "contentOnly v"
    "isLensMissingBase64Content d = Inr True"
    by (auto simp: entersEnhancement_def split: sum.splits)
  have "enhanceLens fs ef f d = None"
    using assms(4) by (cases "resolveEnhance fs ef f") (simp add: enhanceLens_def thenE_def)
  with assms(1,2) v show ?thesis
    by (simp add: entryOfFile_def processFile_def thenE_def split: sum.splits)
qed

text \<open>
  Claim C5: \<^verbatim>\<open>discoverLenses\<close> throws if and only if the directory walk fails (the
  root is missing or not a directory, a directory below it cannot be listed, an entry
  cannot be examined). When the walk succeeds it returns, in the order of the document
  files found, the entry of each file that has one. A file whose processing throws
  contributes nothing and stops nothing: so for a document that cannot be read, for
  one that cannot be parsed, and for one whose splice throws during the enhancement.
\<close>

theorem discoverLenses_throws_iff_walk_fails:
  "((\<exists>err. discoverLenses P fs root = Inl err) \<longleftrightarrow> \<not> walkSucceeds fs root)
   \<and> (walkSucceeds fs root \<longrightarrow>
        (\<exists>files ef. findJsonFiles fs root = Inr files \<and> findEnhanceFiles fs root = Inr ef
           \<and> discoverLenses P fs root = Inr (List.map_filter (entryOfFile P fs ef) files)))
   \<and> (\<forall>ef f. (\<exists>err. processFile P fs ef f = Inl err) \<longrightarrow> entryOfFile P fs ef f = None)
   \<and> (\<forall>ef f err. readFileSync fs f = Inl err \<longrightarrow> entryOfFile P fs ef f = None)
   \<and> (\<forall>ef f c err. readFileSync fs f = Inr c \<and> P c = Inl err
         \<longrightarrow> entryOfFile P fs ef f = None)
   \<and> (\<forall>ef f c d err. readFileSync fs f = Inr c \<and> P c = Inr d \<and> entersEnhancement d
           \<and> splice d (JStr (fst (resolveEnhance fs ef f))) = Inl err
         \<longrightarrow> entryOfFile P fs ef f = None)"
proof -
  have a: "(\<exists>err. discoverLenses P fs root = Inl err) \<longleftrightarrow> \<not> walkSucceeds fs root"
    using findJsonFiles_fails_iff[of fs root] findEnhanceFiles_fails_iff[of fs root]
    by (auto simp: discoverLenses_def thenE_def split: sum.splits)
  have b: "\<exists>files ef. findJsonFiles fs root = Inr files \<and> findEnhanceFiles fs root = Inr ef
           \<and> discoverLenses P fs root = Inr (List.map_filter (entryOfFile P fs ef) files)"
    if w: "walkSucceeds fs root"
  proof -
    from w findJsonFiles_fails_iff[of fs root]
    obtain files where f: "findJsonFiles fs root = Inr files"
      by (cases "findJsonFiles fs root") auto
    from w findEnhanceFiles_fails_iff[of fs root]
    obtain ef where e: "findEnhanceFiles fs root = Inr ef"
      by (cases "findEnhanceFiles fs root") auto
    show ?thesis using f e
      by (simp add: discoverLenses_def thenE_def processFiles_eq)
  qed
  have c: "entryOfFile P fs ef f = None" if "\<exists>err. processFile P fs ef f = Inl err" for ef f
    using that by (auto simp: entryOfFile_def)
  have d: "entryOfFile P fs ef f = None" if "readFileSync fs f = Inl err" for ef f err
    using processFile_unreadable[OF that] by (simp add: entryOfFile_def)
  have e: "entryOfFile P fs ef f = None"
    if "readFileSync fs f = Inr c \<and> P c = Inl err" for ef f c err
    using that processFile_unparsable[of fs f c P err ef] by (simp add: entryOfFile_def)
  have g: "entryOfFile P fs ef f = None"
    if "readFileSync fs f = Inr c \<and> P c = Inr d \<and> entersEnhancement d
           \<and> splice d (JStr (fst (resolveEnhance fs ef f))) = Inl err" for ef f c d err
    using that entryOfFile_enhancement_throws[of fs f c P d ef err] by simp
  from a b c d e g show ?thesis by blast
qed

text \<open>
  A subdirectory that cannot be listed makes the call throw; an unparsable and an
  unreadable document beside \<^verbatim>\<open>x.json\<close> only leave their entries out.
\<close>

theorem discoverLenses_throws_iff_walk_fails_witness:
  "\<not> walkSucceeds brokenfs [''repo'']
   \<and> (\<exists>err. discoverLenses (parseTable [(xtext, xdoc)]) brokenfs [''repo''] = Inl err)
   \<and> walkSucceeds mixedfs [''repo'']
   \<and> discoverLenses (parseTable [(xtext, xdoc)]) mixedfs [''repo''] = Inr [xentry]"
proof -
  from discoverLenses_throws_iff_walk_fails
         [of "parseTable [(xtext, xdoc)]" brokenfs "[''repo'']"] walkSucceeds_brokenfs
  have 1: "\<exists>err. discoverLenses (parseTable [(xtext, xdoc)]) brokenfs [''repo''] = Inl err"
    by blast
  from discoverLenses_throws_iff_walk_fails
         [of "parseTable [(xtext, xdoc)]" mixedfs "[''repo'']"] walkSucceeds_mixedfs
  obtain files ef where "findJsonFiles mixedfs [''repo''] = Inr files"
    and "findEnhanceFiles mixedfs [''repo''] = Inr ef"
    and d: "discoverLenses (parseTable [(xtext, xdoc)]) mixedfs [''repo'']
             = Inr (List.map_filter (entryOfFile (parseTable [(xtext, xdoc)]) mixedfs ef) files)"
    by blast
  with findJsonFiles_mixedfs findEnhanceFiles_mixedfs
  have "files = [[''repo'', ''bad.json''], [''repo'', ''locked.json''], [''repo'', ''x.json'']]"
    and "ef = \<lparr>exact = Map.empty, fallback = Map.empty\<rparr>"
    by simp_all
  with d have 2: "discoverLenses (parseTable [(xtext, xdoc)]) mixedfs [''repo''] = Inr [xentry]"
    by (simp add: List.map_filter_simps entryOfFile_mixedfs)
  from 1 2 walkSucceeds_brokenfs walkSucceeds_mixedfs show ?thesis by simp
qed

section \<open>The splice\<close>

lemma hasBase64Content_True:
  "hasBase64Content xs = Inr True \<Longrightarrow> \<exists>item \<in> set xs. nonEmptyStringData item"
  by (drule hasBase64Content_eq) simp

lemma missing_array:
  assumes "isLensMissingBase64Content d = Inr True"
    and "getField d ''content'' = Inr (JArr xs ps)"
  shows "\<forall>item \<in> set xs. \<not> nonEmptyStringData item"
proof (cases xs)
  case Nil then show ?thesis by simp
next
  case (Cons x rest)
  show ?thesis
  proof (cases rest)
    case Nil
    with Cons assms show ?thesis
      by (cases x)
         (auto simp: isLensMissingBase64Content_def thenE_def nonEmptyStringData_def
            dataField_def typeof_TString split: if_splits option.splits)
  next
    case (Cons y ys)
    with \<open>xs = x # rest\<close> assms show ?thesis
      by (simp add: isLensMissingBase64Content_def thenE_def js_some_hasData
          del: js_some.simps)
  qed
qed

lemma validateFHIRLens_valid_obj:
  "validateFHIRLens d = Inr \<lparr>isValid = True, errors = []\<rparr> \<Longrightarrow> isObj d"
  by (auto simp: validateFHIRLens_def isObj_def split: if_splits)

lemma validateFHIRLens_valid_content:
  assumes "validateFHIRLens d = Inr \<lparr>isValid = True, errors = []\<rparr>"
    and "getField d ''content'' = Inr c"
  shows "isArray c \<and> hasBase64Content (elems c) = Inr True"
  using assms
  by (auto simp: validateFHIRLens_def thenE_def checkContent_def Let_def
      split: if_splits sum.splits)

lemma setIndex0_isArray: "isArray (setIndex0 c y) \<Longrightarrow> isArray c"
  by (cases c) (auto split: if_splits)

lemma ensureContent_step:
  assumes "ensureContent d = Inr d1"
  shows "(\<not> isObj d \<and> d1 = d) \<or>
         (isObj d \<and> isObj d1 \<and>
          getField d1 ''content''
            = Inr (if truthy (contentField d) then contentField d else JArr [] []) \<and>
          (\<forall>k. k \<noteq> ''content'' \<longrightarrow> getField d1 k = getField d k))"
proof (cases "isObj d")
  case False
  with assms show ?thesis
    by (auto simp: ensureContent_def thenE_def split: sum.splits dest: setField_not_obj)
next
  case True
  from getField_obj[OF True] obtain c where c: "getField d ''content'' = Inr c" by blast
  obtain d' where d': "setField d ''content'' (if truthy c then c else JArr [] []) = Inr d'"
    "isObj d'"
    "\<And>k'. getField d' k' =
       (if k' = ''content'' then Inr (if truthy c then c else JArr [] []) else getField d k')"
    by (rule setField_obj[OF True]) blast
  from assms c d'(1) have "d1 = d'" by (simp add: ensureContent_def thenE_def)
  with True d' c show ?thesis by (simp add: contentField_def)
qed

lemma pushIfEmpty_step:
  assumes "pushIfEmpty d1 = Inr d2" "isObj d1" "getField d1 ''content'' = Inr c1"
  shows "isObj d2 \<and> (\<forall>k. k \<noteq> ''content'' \<longrightarrow> getField d2 k = getField d1 k) \<and>
     ((\<exists>ps. c1 = JArr [] ps \<and> getField d2 ''content'' = Inr (JArr [JObj []] ps))
      \<or> (getLength c1 \<noteq> Inr (JNum 0) \<and> getField d2 ''content'' = Inr c1))"
proof -
  from assms obtain len where len: "getLength c1 = Inr len"
    by (auto simp: pushIfEmpty_def thenE_def split: sum.splits)
  show ?thesis
  proof (cases "len = JNum 0")
    case False
    with assms len show ?thesis by (simp add: pushIfEmpty_def thenE_def)
  next
    case True
    with assms len obtain c2 where c2: "js_push c1 (JObj []) = Inr c2"
      and d2: "setField d1 ''content'' c2 = Inr d2"
      by (auto simp: pushIfEmpty_def thenE_def split: sum.splits)
    from c2 len True obtain ps where ps: "c1 = JArr [] ps" "c2 = JArr [JObj []] ps"
      by (cases c1) auto
    obtain d' where d': "setField d1 ''content'' c2 = Inr d'" "isObj d'"
      "\<And>k'. getField d' k' = (if k' = ''content'' then Inr c2 else getField d1 k')"
      by (rule setField_obj[OF assms(2)]) blast
    with d2 have "d2 = d'" by simp
    with d' ps show ?thesis by simp
  qed
qed

lemma setFirstData_step:
  assumes "setFirstData d2 p = Inr d'" "isObj d2" "getField d2 ''content'' = Inr c2"
  obtains first first' where "getIndex0 c2 = Inr first"
    "setField first ''data'' p = Inr first'"
    "isObj d'" "getField d' ''content'' = Inr (setIndex0 c2 first')"
    "\<And>k. k \<noteq> ''content'' \<Longrightarrow> getField d' k = getField d2 k"
proof -
  from assms obtain first first' where f: "getIndex0 c2 = Inr first"
    "setField first ''data'' p = Inr first'"
    and s: "setField d2 ''content'' (setIndex0 c2 first') = Inr d'"
    by (auto simp: setFirstData_def thenE_def split: sum.splits)
  obtain d3 where d3: "setField d2 ''content'' (setIndex0 c2 first') = Inr d3" "isObj d3"
      "\<And>k'. getField d3 k' =
         (if k' = ''content'' then Inr (setIndex0 c2 first') else getField d2 k')"
    by (rule setField_obj[OF assms(2)]) blast
  with s have "d' = d3" by simp
  with d3 f show thesis by (auto intro: that)
qed

text \<open>
  When a document that was missing its payload is valid after the splice, its content
  is an array whose first element carries the payload; the first element is the old one
  with \<^verbatim>\<open>data\<close> assigned (a fresh object if there was none) and the other elements are
  the old ones.
\<close>

lemma splice_emitted:
  assumes m: "isLensMissingBase64Content d = Inr True"
    and s: "splice d (JStr p) = Inr d'"
    and v: "validateFHIRLens d' = Inr \<lparr>isValid = True, errors = []\<rparr>"
  shows "\<exists>x' ps. contentField d' = JArr (x' # tl (elems (contentField d))) ps
           \<and> dataField x' = JStr p
           \<and> (case elems (contentField d) of
                 [] \<Rightarrow> x' = JObj [(''data'', JStr p)]
               | x # rest \<Rightarrow> setField x ''data'' (JStr p) = Inr x')"
proof -
  from s obtain d1 d2 where e: "ensureContent d = Inr d1" and pu: "pushIfEmpty d1 = Inr d2"
    and sf: "setFirstData d2 (JStr p) = Inr d'"
    by (auto simp: splice_def thenE_def split: sum.splits)
  have od': "isObj d'" using v by (rule validateFHIRLens_valid_obj)
  have od: "isObj d"
  proof (rule ccontr)
    assume n: "\<not> isObj d"
    with ensureContent_step[OF e] have "d1 = d" by auto
    with pu n have "d2 = d"
      by (auto simp: pushIfEmpty_def thenE_def split: sum.splits if_splits
          dest: setField_not_obj)
    with sf n have "d' = d"
      by (auto simp: setFirstData_def thenE_def split: sum.splits dest: setField_not_obj)
    with od' n show False by simp
  qed
  define c0 where "c0 = contentField d"
  define c1 where "c1 = (if truthy c0 then c0 else JArr [] [])"
  from getField_obj[OF od, of "''content''"] have g0: "getField d ''content'' = Inr c0"
    by (auto simp: c0_def contentField_def)
  from ensureContent_step[OF e] od have o1: "isObj d1"
    and g1: "getField d1 ''content'' = Inr c1"
    by (auto simp: c0_def c1_def)
  from pushIfEmpty_step[OF pu o1 g1] have o2: "isObj d2"
    and alt: "(\<exists>ps. c1 = JArr [] ps \<and> getField d2 ''content'' = Inr (JArr [JObj []] ps))
      \<or> (getLength c1 \<noteq> Inr (JNum 0) \<and> getField d2 ''content'' = Inr c1)" by auto
  from alt show ?thesis
  proof
    assume "\<exists>ps. c1 = JArr [] ps \<and> getField d2 ''content'' = Inr (JArr [JObj []] ps)"
    then obtain ps where c1: "c1 = JArr [] ps"
      and g2: "getField d2 ''content'' = Inr (JArr [JObj []] ps)"
      by blast
    from sf o2 g2 have "getField d' ''content'' = Inr (JArr [JObj [(''data'', JStr p)]] ps)"
      by (auto elim!: setFirstData_step)
    then have cd': "contentField d' = JArr [JObj [(''data'', JStr p)]] ps"
      by (simp add: contentField_def)
    have "elems c0 = []" using c1 by (cases c0) (auto simp: c1_def split: if_splits)
    then show ?thesis using cd' by (simp add: c0_def dataField_def)
  next
    assume a: "getLength c1 \<noteq> Inr (JNum 0) \<and> getField d2 ''content'' = Inr c1"
    then have g2: "getField d2 ''content'' = Inr c1" and ln: "getLength c1 \<noteq> Inr (JNum 0)"
      by auto
    from sf o2 g2 obtain first first' where f: "getIndex0 c1 = Inr first"
      and f': "setField first ''data'' (JStr p) = Inr first'"
      and gd': "getField d' ''content'' = Inr (setIndex0 c1 first')"
      by (auto elim!: setFirstData_step)
    from validateFHIRLens_valid_content[OF v gd'] have ia: "isArray (setIndex0 c1 first')"
      and hb: "hasBase64Content (elems (setIndex0 c1 first')) = Inr True" by auto
    from setIndex0_isArray[OF ia] ln obtain x rest ps where c1: "c1 = JArr (x # rest) ps"
      by (cases c1; cases "elems c1") auto
    then have c0: "c0 = JArr (x # rest) ps" by (auto simp: c1_def split: if_splits)
    from f c1 have fx: "first = x" by simp
    have cd': "contentField d' = JArr (first' # rest) ps"
      using gd' c1 by (simp add: contentField_def)
    have df: "dataField first' = JStr p"
    proof (cases "isObj x")
      case True
      from setField_obj[OF True, of "''data''" "JStr p"] f' fx
      have "getField first' ''data'' = Inr (JStr p)" by (metis Inr_inject)
      then show ?thesis by (simp add: dataField_def)
    next
      case False
      with f' fx have "first' = x" by (auto dest: setField_not_obj)
      with hb c1 have "hasBase64Content (x # rest) = Inr True" by simp
      from hasBase64Content_True[OF this] missing_array[OF m g0[unfolded c0]]
      show ?thesis by blast
    qed
    show ?thesis using cd' df f' fx c0 by (simp add: c0_def[symmetric])
  qed
qed

section \<open>The source of the payload\<close>

lemma resolveEnhance_precedence:
  "resolveEnhance fs ef filePath = payloadOf fs (resolveSource ef filePath)"
  by (auto simp: resolveEnhance_def chooseEnhanceFile_def payloadOf_def resolveSource_def
      jsToBase64_def thenE_def Let_def split: option.splits list.splits sum.splits)

text \<open>
  Claim C6: for a document that enters the enhancement step (read, parsed, not valid,
  one error only and about content, payload missing), the payload, the script recorded
  and the provenance are those of the precedence: the exact-match script of the
  document's own path (\<^verbatim>\<open>exact-match\<close>), else the first fallback script of its
  directory (\<^verbatim>\<open>fallback\<close>), else the default payload with \<^verbatim>\<open>default\<close> and no
  script; and when the resolved script cannot be read, the default payload,
  \<^verbatim>\<open>default\<close> and no script. The file's outcome is that of the enhancement (after
  the log line that names the lens), and an entry it emits carries that script and
  provenance and a document spliced with that payload, found in the \<^verbatim>\<open>data\<close> of
  the first content element.
\<close>

theorem enhancement_source_precedence:
  assumes "readFileSync fs filePath = Inr content" and "JSON_parse content = Inr d"
    and "validateFHIRLens d = Inr v" and "\<not> isValid v" and "contentOnly v"
    and "isLensMissingBase64Content d = Inr True"
  shows "resolveEnhance fs ef filePath = payloadOf fs (resolveSource ef filePath)
     \<and> processFile JSON_parse fs ef filePath
         = thenE (logWithId d) (\<lambda>logged. Inr (enhanceLens fs ef filePath d))
     \<and> (\<forall>e. enhanceLens fs ef filePath d = Some e \<longrightarrow>
          (\<exists>payload script tag.
             payloadOf fs (resolveSource ef filePath) = (payload, script, tag)
             \<and> splice d (JStr payload) = Inr (lens e)
             \<and> (\<exists>x' rest ps. contentField (lens e) = JArr (x' # rest) ps
                   \<and> dataField x' = JStr payload)
             \<and> enhancedWithJs e = script \<and> enhanceSource e = Some tag))"
proof -
  have p: "processFile JSON_parse fs ef filePath
             = thenE (logWithId d) (\<lambda>logged. Inr (enhanceLens fs ef filePath d))"
    using assms by (simp add: processFile_def thenE_def)
  have "\<exists>payload script tag.
             payloadOf fs (resolveSource ef filePath) = (payload, script, tag)
             \<and> splice d (JStr payload) = Inr (lens e)
             \<and> (\<exists>x' rest ps. contentField (lens e) = JArr (x' # rest) ps
                   \<and> dataField x' = JStr payload)
             \<and> enhancedWithJs e = script \<and> enhanceSource e = Some tag"
    if e: "enhanceLens fs ef filePath d = Some e" for e
  proof -
    from e obtain payload script tag where
      r: "resolveEnhance fs ef filePath = (payload, script, tag)"
      and s: "splice d (JStr payload) = Inr (lens e)"
      and v: "validateFHIRLens (lens e) = Inr \<lparr>isValid = True, errors = []\<rparr>"
      and f: "enhancedWithJs e = script" "enhanceSource e = Some tag"
      by (rule enhanceLens_Some)
    from splice_emitted[OF assms(6) s v]
    have "\<exists>x' rest ps. contentField (lens e) = JArr (x' # rest) ps
            \<and> dataField x' = JStr payload"
      by blast
    with r s f show ?thesis by (simp add: resolveEnhance_precedence)
  qed
  with p resolveEnhance_precedence show ?thesis by blast
qed

text \<open>
  The document \<^verbatim>\<open>x.json\<close> beside a script \<^verbatim>\<open>x.js\<close> that the tables register: the
  exact match is taken.
\<close>

lemma findEnhanceFiles_markedfs: "findEnhanceFiles markedfs [''repo''] = Inr markedTables"
  by (simp add: findEnhanceFiles_def markedfs_def markedTables_def thenE_def path_join_def
      extname_def hasEnhanceDeclaration_def markedScript_def path_basename_def
      suffix_to_prefix)

theorem enhancement_source_precedence_witness:
  "readFileSync markedfs [''repo'', ''x.json''] = Inr xtext
   \<and> parseTable [(xtext, xdoc)] xtext = Inr xdoc
   \<and> validateFHIRLens xdoc = Inr \<lparr>isValid = False,
        errors = [''content must include at least one item with base64 encoded data'']\<rparr>
   \<and> contentOnly \<lparr>isValid = False,
        errors = [''content must include at least one item with base64 encoded data'']\<rparr>
   \<and> isLensMissingBase64Content xdoc = Inr True
   \<and> resolveEnhance markedfs markedTables [''repo'', ''x.json'']
       = (base64 markedScript, Some [''repo'', ''x.js''], ''exact-match'')"
proof -
  have h1: "readFileSync markedfs [''repo'', ''x.json''] = Inr xtext"
    by (simp add: readFileSync_def markedfs_def)
  have h2: "parseTable [(xtext, xdoc)] xtext = Inr xdoc"
    by (simp add: parseTable_def)
  have h4: "\<not> isValid \<lparr>isValid = False,
        errors = [''content must include at least one item with base64 encoded data'']\<rparr>"
    by simp
  have pl: "payloadOf markedfs (resolveSource markedTables [''repo'', ''x.json''])
       = (base64 markedScript, Some [''repo'', ''x.js''], ''exact-match'')"
    by (simp add: payloadOf_def resolveSource_def markedTables_def readFileSync_def
        markedfs_def)
  from enhancement_source_precedence
         [where JSON_parse = "parseTable [(xtext, xdoc)]" and ef = markedTables,
          OF h1 h2 validateFHIRLens_xdoc h4 contentOnly_xdoc isLensMissingBase64Content_xdoc]
  have "resolveEnhance markedfs markedTables [''repo'', ''x.json'']
          = payloadOf markedfs (resolveSource markedTables [''repo'', ''x.json''])"
    by blast
  with pl h1 h2 validateFHIRLens_xdoc contentOnly_xdoc isLensMissingBase64Content_xdoc
  show ?thesis by simp
qed

section \<open>Reading a payload back\<close>

lemma distinct_b64alphabet: "distinct b64alphabet"
  by (simp add: b64alphabet_def)

lemma pad_not_in_b64alphabet: "CHR ''='' \<notin> set b64alphabet"
  by (simp add: b64alphabet_def)

lemma length_b64alphabet: "length b64alphabet = 64"
  by (simp add: b64alphabet_def)

lemma takeWhile_distinct_nth:
  "distinct xs \<Longrightarrow> n < length xs \<Longrightarrow> length (takeWhile (\<lambda>x. x \<noteq> xs ! n) xs) = n"
proof (induction xs arbitrary: n)
  case Nil then show ?case by simp
next
  case (Cons a xs)
  show ?case
  proof (cases n)
    case 0 then show ?thesis by simp
  next
    case (Suc m)
    with Cons.prems have "xs ! m \<in> set xs" by simp
    with Cons.prems have "a \<noteq> xs ! m" by auto
    with Suc Cons show ?thesis by simp
  qed
qed

lemma b64index_b64char: "n < 64 \<Longrightarrow> b64index (b64char n) = n"
  unfolding b64index_def b64char_def
  by (rule takeWhile_distinct_nth[OF distinct_b64alphabet]) (simp add: length_b64alphabet)

lemma b64char_not_pad: "n < 64 \<Longrightarrow> b64char n \<noteq> CHR ''=''"
  unfolding b64char_def using pad_not_in_b64alphabet nth_mem[of n b64alphabet]
  by (metis length_b64alphabet)

lemma sextet1: "a < 256 \<Longrightarrow> a div 4 < (64::nat)"
  by simp

lemma sextet2: "b < 256 \<Longrightarrow> (a mod 4) * 16 + b div 16 < (64::nat)"
proof -
  assume "b < 256"
  then have "b div 16 < 16" by simp
  moreover have "a mod 4 < 4" by simp
  ultimately show ?thesis by linarith
qed

lemma sextet3: "c < 256 \<Longrightarrow> (b mod 16) * 4 + c div 64 < (64::nat)"
proof -
  assume "c < 256"
  then have "c div 64 < 4" by simp
  moreover have "b mod 16 < 16" by simp
  ultimately show ?thesis by linarith
qed

lemma sextet2_last: "(a mod 4) * 16 < (64::nat)"
proof -
  have "a mod 4 < 4" by simp
  then show ?thesis by linarith
qed

lemma sextet3_last: "(b mod 16) * 4 < (64::nat)"
proof -
  have "b mod 16 < 16" by simp
  then show ?thesis by linarith
qed

lemma octet1:
  "a < 256 \<Longrightarrow> b < 256 \<Longrightarrow> a div 4 * 4 + ((a mod 4) * 16 + b div 16) div 16 = (a::nat)"
  by simp

lemma octet2:
  "b < 256 \<Longrightarrow> c < 256 \<Longrightarrow>
   (((a mod 4) * 16 + b div 16) mod 16) * 16 + ((b mod 16) * 4 + c div 64) div 4 = (b::nat)"
proof -
  assume b: "b < 256" and c: "c < 256"
  have "b div 16 < 16" using b by simp
  then have x: "((a mod 4) * 16 + b div 16) mod 16 = b div 16" by simp
  have "c div 64 < 4" using c by simp
  then have y: "((b mod 16) * 4 + c div 64) div 4 = b mod 16" by simp
  show ?thesis unfolding x y by simp
qed

lemma octet3:
  "c < 256 \<Longrightarrow> (((b mod 16) * 4 + c div 64) mod 4) * 64 + c mod 64 = (c::nat)"
proof -
  assume c: "c < 256"
  have "c div 64 < 4" using c by simp
  then have x: "((b mod 16) * 4 + c div 64) mod 4 = c div 64" by simp
  show ?thesis unfolding x by simp
qed

lemma base64_bytes_roundtrip:
  "\<forall>b \<in> set bs. b < 256 \<Longrightarrow> base64_decode_bytes (base64_bytes bs) = bs"
proof (induction bs rule: base64_bytes.induct)
  case 1
  then show ?case by simp
next
  case (2 a)
  then have a: "a < 256" by simp
  have i: "b64index (b64char (a div 4)) = a div 4"
    "b64index (b64char ((a mod 4) * 16)) = (a mod 4) * 16"
    using sextet1[OF a] sextet2_last[of a] by (simp_all add: b64index_b64char)
  have "a div 4 * 4 + ((a mod 4) * 16) div 16 = a" by simp
  then show ?case by (simp add: i)
next
  case (3 a b)
  then have ab: "a < 256" "b < 256" by simp_all
  have i: "b64index (b64char (a div 4)) = a div 4"
    "b64index (b64char ((a mod 4) * 16 + b div 16)) = (a mod 4) * 16 + b div 16"
    "b64index (b64char ((b mod 16) * 4)) = (b mod 16) * 4"
    using sextet1[OF ab(1)] sextet2[OF ab(2), of a] sextet3_last[of b]
    by (simp_all add: b64index_b64char)
  have p: "b64char ((b mod 16) * 4) \<noteq> CHR ''=''"
    using sextet3_last[of b] by (rule b64char_not_pad)
  have e2: "(((a mod 4) * 16 + b div 16) mod 16) * 16 + ((b mod 16) * 4) div 4 = b"
    using octet2[OF ab(2), of 0 a] by simp
  show ?case using p octet1[OF ab] e2 by (simp add: i)
next
  case (4 a b c rest)
  then have abc: "a < 256" "b < 256" "c < 256" and r: "\<forall>b \<in> set rest. b < 256"
    by simp_all
  have i: "b64index (b64char (a div 4)) = a div 4"
    "b64index (b64char ((a mod 4) * 16 + b div 16)) = (a mod 4) * 16 + b div 16"
    "b64index (b64char ((b mod 16) * 4 + c div 64)) = (b mod 16) * 4 + c div 64"
    "b64index (b64char (c mod 64)) = c mod 64"
    using sextet1[OF abc(1)] sextet2[OF abc(2), of a] sextet3[OF abc(3), of b]
    by (simp_all add: b64index_b64char)
  have p: "b64char ((b mod 16) * 4 + c div 64) \<noteq> CHR ''=''"
    "b64char (c mod 64) \<noteq> CHR ''=''"
    using sextet3[OF abc(3), of b] by (simp_all add: b64char_not_pad)
  show ?case
    using p octet1[OF abc(1,2)] octet2[OF abc(2,3), of a] octet3[OF abc(3), of b] 4(1)[OF r]
    by (simp add: i)
qed

text \<open>Decoding what \<^verbatim>\<open>jsToBase64\<close> encoded gives the text of the file back.\<close>

lemma base64_roundtrip: "base64_decode (base64 s) = s"
proof -
  have "\<forall>b \<in> set (map of_char s :: nat list). b < 256"
    by simp
  from base64_bytes_roundtrip[OF this] show ?thesis
    by (simp add: base64_decode_def base64_def comp_def)
qed

section \<open>The concrete scenario of the sibling script\<close>

text \<open>
  Claim C1 says that a document invalid only for its missing payload, with a sibling
  script of the same base name that declares \<^verbatim>\<open>enhance\<close>, gives one result with the
  script's text as payload and the provenance \<^verbatim>\<open>exact-match\<close>. In the scenario of
  the specification (\<^verbatim>\<open>x.json\<close> with empty content, \<^verbatim>\<open>x.js\<close> holding
  \<^verbatim>\<open>function enhance(d){return d;}\<close>) the code returns one result whose provenance is
  \<^verbatim>\<open>default\<close>, with no script recorded, and whose payload decodes to the default
  stub, not to the script: \<^verbatim>\<open>findEnhanceFiles\<close> looks for the literal text
  \<^verbatim>\<open>functions+enhance\<close> and its like, which the script does not contain.
\<close>

theorem discoverLenses_ignores_sibling_script:
  "discoverLenses (parseTable [(xtext, xdoc)]) xfs [''repo''] = Inr [xentry]
   \<and> enhanceSource xentry = Some ''default''
   \<and> enhancedWithJs xentry = None
   \<and> dataField (elems (contentField (lens xentry)) ! 0) = JStr getDefaultEnhanceBase64
   \<and> base64_decode getDefaultEnhanceBase64 = defaultEnhance
   \<and> defaultEnhance \<noteq> xscript"
proof -
  have "dataField (elems (contentField (lens xentry)) ! 0) = JStr getDefaultEnhanceBase64"
    by (simp add: xentry_def contentField_def dataField_def)
  moreover have "base64_decode getDefaultEnhanceBase64 = defaultEnhance"
    by (simp add: getDefaultEnhanceBase64_def base64_roundtrip)
  moreover have "defaultEnhance \<noteq> xscript"
    by (simp add: defaultEnhance_def xscript_def)
  ultimately show ?thesis
    using discoverLenses_xfs by (simp add: xentry_def)
qed

text \<open>
  The scenario is the one described: the document is read and parsed, it is rejected
  for its content only and its payload is missing; the script is the sibling of the
  same base name, it can be read, and its text would be read back from its encoding.
\<close>

theorem discoverLenses_ignores_sibling_script_witness:
  "readFileSync xfs [''repo'', ''x.json''] = Inr xtext
   \<and> parseTable [(xtext, xdoc)] xtext = Inr xdoc
   \<and> entersEnhancement xdoc
   \<and> readFileSync xfs [''repo'', ''x.js''] = Inr xscript
   \<and> path_join [''repo''] (path_basename ''x.js'' ''.js'' @ ''.json'') = [''repo'', ''x.json'']
   \<and> base64_decode (base64 xscript) = xscript
   \<and> discoverLenses (parseTable [(xtext, xdoc)]) xfs [''repo''] = Inr [xentry]
   \<and> enhanceSource xentry = Some ''default''"
  using discoverLenses_ignores_sibling_script
  by (simp add: readFileSync_def xfs_def parseTable_def entersEnhancement_def
      validateFHIRLens_xdoc contentOnly_xdoc isLensMissingBase64Content_xdoc path_join_def
      path_basename_def suffix_to_prefix base64_roundtrip)

section \<open>Documents that the splice does not repair\<close>

lemma entersEnhancement_docWithContent:
  "entersEnhancement (docWithContent (JStr ''abc''))"
  "entersEnhancement (docWithContent (JArr [JStr ''abc''] []))"
  "entersEnhancement (docWithContent (JNum 5))"
  by (simp_all add: entersEnhancement_def docWithContent_def validateFHIRLens_def thenE_def
      checkContent_def checkResourceType_def checkString_def contentOnly_def
      isLensMissingBase64Content_def)

lemma splice_docWithContent:
  "splice (docWithContent (JStr ''abc'')) (JStr p) = Inr (docWithContent (JStr ''abc''))"
  "splice (docWithContent (JArr [JStr ''abc''] [])) (JStr p)
     = Inr (docWithContent (JArr [JStr ''abc''] []))"
  "splice (docWithContent (JNum 5)) (JStr p) = Inl TypeError"
  by (simp_all add: splice_def ensureContent_def pushIfEmpty_def setFirstData_def
      docWithContent_def thenE_def)

lemma discoverLenses_abcfs:
  "discoverLenses (parseTable [(abcText, docWithContent (JStr ''abc''))]) abcfs [''repo'']
     = Inr []"
proof -
  have f: "findJsonFiles abcfs [''repo''] = Inr [[''repo'', ''abc.json'']]"
    by (simp add: findJsonFiles_def abcfs_def path_join_def extname_def)
  have e: "findEnhanceFiles abcfs [''repo'']
             = Inr \<lparr>exact = Map.empty, fallback = Map.empty\<rparr>"
    by (simp add: findEnhanceFiles_def abcfs_def path_join_def extname_def thenE_def)
  have v: "validateFHIRLens (docWithContent (JStr ''abc''))
             = Inr \<lparr>isValid = False, errors = [''content must be an array'']\<rparr>"
    by (simp add: docWithContent_def validateFHIRLens_def thenE_def checkContent_def
        checkResourceType_def checkString_def)
  have m: "isLensMissingBase64Content (docWithContent (JStr ''abc'')) = Inr True"
    by (simp add: isLensMissingBase64Content_def docWithContent_def thenE_def)
  have g: "contentOnly \<lparr>isValid = False, errors = [''content must be an array'']\<rparr>"
    by (simp add: contentOnly_def)
  have n: "enhanceLens abcfs \<lparr>exact = Map.empty, fallback = Map.empty\<rparr>
             [''repo'', ''abc.json''] (docWithContent (JStr ''abc'')) = None"
    by (simp add: enhanceLens_def resolveEnhance_def chooseEnhanceFile_def
        splice_docWithContent v thenE_def)
  have r: "readFileSync abcfs [''repo'', ''abc.json''] = Inr abcText"
    by (simp add: readFileSync_def abcfs_def)
  have l: "logWithId (docWithContent (JStr ''abc'')) = Inr ()"
    by (simp add: logWithId_def docWithContent_def thenE_def)
  have "processFile (parseTable [(abcText, docWithContent (JStr ''abc''))]) abcfs
          \<lparr>exact = Map.empty, fallback = Map.empty\<rparr> [''repo'', ''abc.json''] = Inr None"
    by (simp add: processFile_def r parseTable_def v g m l n thenE_def)
  with f e show ?thesis by (simp add: discoverLenses_def thenE_def)
qed

text \<open>
  Claim C9 says that after the splice the content of every document that went through
  it is a sequence whose first element's \<^verbatim>\<open>data\<close> is the payload. Three documents
  that reach the splice show otherwise: with the content \<^verbatim>\<open>"abc"\<close> the splice changes
  nothing and the content is still a string; with \<^verbatim>\<open>["abc"]\<close> it changes nothing and
  the first element has no \<^verbatim>\<open>data\<close>; with \<^verbatim>\<open>5\<close> it throws. Such a document is
  then dropped instead of being enhanced.
\<close>

theorem splice_leaves_content_unrepaired:
  "entersEnhancement (docWithContent (JStr ''abc''))
   \<and> splice (docWithContent (JStr ''abc'')) (JStr getDefaultEnhanceBase64)
       = Inr (docWithContent (JStr ''abc''))
   \<and> contentField (docWithContent (JStr ''abc'')) = JStr ''abc''
   \<and> entersEnhancement (docWithContent (JArr [JStr ''abc''] []))
   \<and> splice (docWithContent (JArr [JStr ''abc''] [])) (JStr getDefaultEnhanceBase64)
       = Inr (docWithContent (JArr [JStr ''abc''] []))
   \<and> contentField (docWithContent (JArr [JStr ''abc''] [])) = JArr [JStr ''abc''] []
   \<and> dataField (JStr ''abc'') = JUndefined
   \<and> entersEnhancement (docWithContent (JNum 5))
   \<and> splice (docWithContent (JNum 5)) (JStr getDefaultEnhanceBase64) = Inl TypeError
   \<and> discoverLenses (parseTable [(abcText, docWithContent (JStr ''abc''))]) abcfs [''repo'']
       = Inr []"
  by (simp add: entersEnhancement_docWithContent splice_docWithContent discoverLenses_abcfs)
     (simp add: docWithContent_def contentField_def dataField_def)

text \<open>
  The first of these documents is read from \<^verbatim>\<open>abc.json\<close>, is an object, and its
  content is a non-empty string, which is truthy and not an array.
\<close>

theorem splice_leaves_content_unrepaired_witness:
  "readFileSync abcfs [''repo'', ''abc.json''] = Inr abcText
   \<and> isObj (docWithContent (JStr ''abc''))
   \<and> truthy (JStr ''abc'') \<and> isArray (JStr ''abc'') = False
   \<and> entersEnhancement (docWithContent (JStr ''abc''))
   \<and> splice (docWithContent (JStr ''abc'')) (JStr getDefaultEnhanceBase64)
       = Inr (docWithContent (JStr ''abc''))"
  using splice_leaves_content_unrepaired
  by (simp add: readFileSync_def abcfs_def isObj_def docWithContent_def)

end
